theory Spec2Isabelle
  imports Complex_Main "HOL-Library.Log_Nat"
begin

section \<open>JavaScript values and numbers\<close>

text \<open>
  The values a JavaScript caller can hand to \<open>hexToRgb\<close>. The TypeScript signature says
  \<open>string\<close>, but the function tests \<open>typeof hex\<close> itself, so the other kinds of value
  are part of its input. Strings are lists of characters; a character outside the
  8-bit range is never a hexadecimal digit, so it is not needed to decide a match.
\<close>

datatype jsval =
    JUndefined
  | JNull
  | JBoolean bool
  | JNumber rat
  | JString string
  | JObject

text \<open>\<open>!v\<close> is true exactly for the falsy values. (\<open>NaN\<close> is not a \<open>rat\<close>.)\<close>

fun falsy :: "jsval \<Rightarrow> bool" where
  "falsy JUndefined = True"
| "falsy JNull = True"
| "falsy (JBoolean b) = (\<not> b)"
| "falsy (JNumber n) = (n = 0)"
| "falsy (JString s) = (s = [])"
| "falsy JObject = False"

fun typeof_string :: "jsval \<Rightarrow> bool" where
  "typeof_string (JString s) = True"
| "typeof_string v = False"

subsection \<open>Binary64 arithmetic\<close>

text \<open>
  JavaScript numbers are IEEE 754 binary64. Every number that \<open>mix\<close> can meet here is
  zero or lies between \<open>2 ^ -5\<close> and \<open>2 ^ 9\<close>, so a number is modelled by the rational
  it denotes and each arithmetic operation by the exact operation followed by
  \<open>fl\<close>, rounding to 53 significant bits, ties to even. Overflow, subnormals, NaN
  and the sign of zero lie outside that range and are not modelled.
\<close>

definition pow2 :: "int \<Rightarrow> rat" where
  "pow2 e = (if 0 \<le> e then 2 ^ nat e else 1 / 2 ^ nat (- e))"

text \<open>\<open>exponent x\<close> is the \<open>e\<close> with \<open>2 ^ e \<le> x < 2 ^ (e + 1)\<close>, for positive \<open>x\<close>.\<close>

definition exponent :: "rat \<Rightarrow> int" where
  "exponent x = (if 1 \<le> x then bitlen \<lfloor>x\<rfloor> - 1 else - bitlen (\<lceil>1 / x\<rceil> - 1))"

text \<open>Rounding to the nearest integer, a tie going to the even neighbour.\<close>

definition rne :: "rat \<Rightarrow> int" where
  "rne y = (let f = \<lfloor>y\<rfloor>; d = y - of_int f in
     if d < 1 / 2 then f
     else if 1 / 2 < d then f + 1
     else if even f then f else f + 1)"

definition fl :: "rat \<Rightarrow> rat" where
  "fl x = (if x = 0 then 0
     else let q = pow2 (exponent \<bar>x\<bar> - 52) in of_int (rne (x / q)) * q)"

definition fmul :: "rat \<Rightarrow> rat \<Rightarrow> rat" where
  "fmul x y = fl (x * y)"

definition fadd :: "rat \<Rightarrow> rat \<Rightarrow> rat" where
  "fadd x y = fl (x + y)"

definition fsub :: "rat \<Rightarrow> rat \<Rightarrow> rat" where
  "fsub x y = fl (x - y)"

text \<open>
  \<open>Math.round\<close>: the closest integer, a tie going towards plus infinity. It is computed
  exactly from its argument.
\<close>

definition Math_round :: "rat \<Rightarrow> int" where
  "Math_round x = \<lfloor>x + 1 / 2\<rfloor>"

section \<open>Theme Engine\<close>

record rgb =
  r :: int
  g :: int
  b :: int

subsection \<open>\<open>hexToRgb\<close>\<close>

text \<open>
  The character class \<open>[a-f\d]\<close> under the flag \<open>i\<close>: the decimal digits and the
  letters a to f in either case. The table also gives the digit's value as
  \<open>parseInt(_, 16)\<close> reads it.
\<close>

definition hex_table :: "(char \<times> int) list" where
  "hex_table =
    [(CHR ''0'', 0), (CHR ''1'', 1), (CHR ''2'', 2), (CHR ''3'', 3), (CHR ''4'', 4),
     (CHR ''5'', 5), (CHR ''6'', 6), (CHR ''7'', 7), (CHR ''8'', 8), (CHR ''9'', 9),
     (CHR ''a'', 10), (CHR ''b'', 11), (CHR ''c'', 12), (CHR ''d'', 13), (CHR ''e'', 14),
     (CHR ''f'', 15),
     (CHR ''A'', 10), (CHR ''B'', 11), (CHR ''C'', 12), (CHR ''D'', 13), (CHR ''E'', 14),
     (CHR ''F'', 15)]"

definition is_hex :: "char \<Rightarrow> bool" where
  "is_hex c = (map_of hex_table c \<noteq> None)"

definition hex_val :: "char \<Rightarrow> int" where
  "hex_val c = (case map_of hex_table c of Some v \<Rightarrow> v | None \<Rightarrow> 0)"

text \<open>
  \<open>parseInt(s, 16)\<close> on a string of hexadecimal digits, which is all the regular
  expression's groups can hold.
\<close>

definition parseInt16 :: "string \<Rightarrow> int" where
  "parseInt16 s = foldl (\<lambda>acc c. 16 * acc + hex_val c) 0 s"

text \<open>
  \<open>/^#?([a-f\d]{2})([a-f\d]{2})([a-f\d]{2})$/i.exec(hex)\<close>: the three groups of a match,
  or \<open>None\<close> for \<open>null\<close>. The optional \<open>#\<close> is taken when the string starts with one;
  leaving it unmatched cannot help, because \<open>#\<close> is no hexadecimal digit. Without the
  flag \<open>m\<close>, \<open>$\<close> matches at the end of the string only.
\<close>

definition regex_exec :: "string \<Rightarrow> (string \<times> string \<times> string) option" where
  "regex_exec hex =
    (let body = (case hex of [] \<Rightarrow> [] | c # cs \<Rightarrow> if c = CHR ''#'' then cs else hex) in
     if length body = 6 \<and> list_all is_hex body
     then Some (take 2 body, take 2 (drop 2 body), take 2 (drop 4 body))
     else None)"

definition default_rgb :: rgb where
  "default_rgb = \<lparr>r = 37, g = 99, b = 235\<rparr>"

definition hexToRgb :: "jsval \<Rightarrow> rgb" where
  "hexToRgb hex =
    (if falsy hex \<or> \<not> typeof_string hex then default_rgb
     else case hex of
       JString s \<Rightarrow>
         (case regex_exec s of
            Some (g1, g2, g3) \<Rightarrow> \<lparr>r = parseInt16 g1, g = parseInt16 g2, b = parseInt16 g3\<rparr>
          | None \<Rightarrow> default_rgb)
     | _ \<Rightarrow> default_rgb)"

subsection \<open>\<open>mix\<close>\<close>

text \<open>
  One channel of \<open>mix\<close>: \<open>Math.round(c1 * (1 - weight) + c2 * weight)\<close>, each operation
  in binary64. The channels are integers below \<open>2 ^ 53\<close>, which binary64 holds exactly.
\<close>

definition mix_channel :: "int \<Rightarrow> int \<Rightarrow> rat \<Rightarrow> int" where
  "mix_channel c1 c2 weight =
    Math_round (fadd (fmul (of_int c1) (fsub 1 weight)) (fmul (of_int c2) weight))"

definition mix :: "rgb \<Rightarrow> rgb \<Rightarrow> rat \<Rightarrow> rgb" where
  "mix c1 c2 weight =
    \<lparr>r = mix_channel (r c1) (r c2) weight,
     g = mix_channel (g c1) (g c2) weight,
     b = mix_channel (b c1) (b c2) weight\<rparr>"

subsection \<open>\<open>applyTheme\<close>\<close>

definition white :: rgb where
  "white = \<lparr>r = 255, g = 255, b = 255\<rparr>"

definition black :: rgb where
  "black = \<lparr>r = 0, g = 0, b = 0\<rparr>"

text \<open>
  The object literal \<open>palette\<close>, as \<open>Object.entries\<close> lists it: integer keys in
  ascending order, which is also the order they are written in. A decimal literal such
  as \<open>0.95\<close> denotes the binary64 number nearest to it.
\<close>

definition palette :: "rgb \<Rightarrow> (nat \<times> rgb) list" where
  "palette base =
    [(50, mix base white (fl (95 / 100))), (100, mix base white (fl (9 / 10))),
     (200, mix base white (fl (75 / 100))), (300, mix base white (fl (6 / 10))),
     (400, mix base white (fl (3 / 10))), (500, mix base white (fl (1 / 10))),
     (600, base), (700, mix base black (fl (1 / 10))),
     (800, mix base black (fl (25 / 100))), (900, mix base black (fl (4 / 10))),
     (950, mix base black (fl (6 / 10)))]"

text \<open>The decimal digits of a natural number, and an integer as a template literal prints it.\<close>

fun dec :: "nat \<Rightarrow> string" where
  "dec n = (if n < 10 then [char_of (48 + n)] else dec (n div 10) @ [char_of (48 + n mod 10)])"

declare dec.simps [simp del]

definition num_to_string :: "int \<Rightarrow> string" where
  "num_to_string i = (if i < 0 then CHR ''-'' # dec (nat (- i)) else dec (nat i))"

definition css_triple :: "rgb \<Rightarrow> string" where
  "css_triple v = num_to_string (r v) @ '' '' @ num_to_string (g v) @ '' '' @ num_to_string (b v)"

text \<open>
  \<open>applyTheme\<close> writes into the style of the document root, a map from property names to
  values; \<open>setProperty\<close> is the map update.
\<close>

definition setProperty :: "string \<Rightarrow> string \<Rightarrow> (string \<rightharpoonup> string) \<Rightarrow> (string \<rightharpoonup> string)" where
  "setProperty name v style = style(name \<mapsto> v)"

definition applyTheme :: "jsval \<Rightarrow> (string \<rightharpoonup> string) \<Rightarrow> (string \<rightharpoonup> string)" where
  "applyTheme hexColor style =
    fold (\<lambda>(key, v). setProperty (''--brand-'' @ dec key) (css_triple v))
      (palette (hexToRgb hexColor)) style"

section \<open>Data model\<close>

record product =
  product_id :: string
  product_name :: string
  category :: string
  price :: rat
  description :: string
  product_image :: string
  featured :: bool

record blog_post =
  blog_id :: string
  blog_title :: string
  excerpt :: string
  blog_content :: string
  author :: string
  date :: string
  blog_image :: string

record page_content =
  page_id :: string
  slug :: string
  page_title :: string
  page_text :: string

record site_config =
  shopName :: string
  logoUrl :: "string option"
  themeColor :: string
  whatsappNumber :: string
  address :: string
  email :: string
  welcomeMessage :: string
  footerDescription :: string
  heroImage :: "string option"
  aboutUsTitle :: string
  aboutUsContent :: string
  aboutUsImage :: string

datatype PageView =
    HOME
  | SHOP
  | PRODUCT_DETAIL
  | BLOG
  | BLOG_DETAIL
  | DYNAMIC_PAGE
  | ADMIN_LOGIN
  | ADMIN_DASHBOARD

section \<open>View Controller\<close>

text \<open>The state hooks of \<open>App\<close>, with the initial values \<open>useState\<close> gives them.\<close>

record app_state =
  loading :: bool
  view :: PageView
  products :: "product list"
  blogs :: "blog_post list"
  pages :: "page_content list"
  config :: "site_config option"
  selectedProduct :: "product option"
  selectedBlog :: "blog_post option"
  selectedPage :: "page_content option"
  isDarkMode :: bool
  loginPassword :: string
  loginError :: string
  showPassword :: bool

definition initial_state :: app_state where
  "initial_state =
    \<lparr>loading = True, view = HOME, products = [], blogs = [], pages = [], config = None,
     selectedProduct = None, selectedBlog = None, selectedPage = None,
     isDarkMode = False, loginPassword = [], loginError = [], showPassword = False\<rparr>"

datatype error =
    TypeError
  | Rejection string

subsection \<open>The collaborators that are imported\<close>

text \<open>
  \<open>./services/authService\<close> is imported, not defined here: its three functions are
  parameters, acting on an authentication store of some type \<open>'a\<close>. \<open>login\<close> returns an
  object with \<open>success\<close> and an \<open>error\<close> that may be missing.
\<close>

record login_result =
  success :: bool
  error :: "string option"

record 'a auth_service =
  login :: "string \<Rightarrow> 'a \<Rightarrow> login_result \<times> 'a"
  checkIsAuthenticated :: "'a \<Rightarrow> bool"
  logout :: "'a \<Rightarrow> 'a"

text \<open>
  \<open>./services/store\<close> is imported as well: its calls are parameters over a backend of
  some type \<open>'db\<close>. A promise that rejects is \<open>Inl\<close>. A write returns the backend it
  leaves.
\<close>

record 'db store =
  getSiteConfig :: "'db \<Rightarrow> error + site_config option"
  getProducts :: "'db \<Rightarrow> error + product list"
  getBlogs :: "'db \<Rightarrow> error + blog_post list"
  getPages :: "'db \<Rightarrow> error + page_content list"
  saveProduct :: "product \<Rightarrow> 'db \<Rightarrow> error + 'db"
  deleteProduct :: "string \<Rightarrow> 'db \<Rightarrow> error + 'db"
  saveBlog :: "blog_post \<Rightarrow> 'db \<Rightarrow> error + 'db"
  deleteBlog :: "string \<Rightarrow> 'db \<Rightarrow> error + 'db"
  savePage :: "page_content \<Rightarrow> 'db \<Rightarrow> error + 'db"
  deletePage :: "string \<Rightarrow> 'db \<Rightarrow> error + 'db"
  saveSiteConfig :: "site_config \<Rightarrow> 'db \<Rightarrow> error + 'db"

text \<open>The backend together with the list of calls made to it, oldest first.\<close>

datatype mutation =
    SaveProduct product
  | DeleteProduct string
  | SaveBlog blog_post
  | DeleteBlog string
  | SavePage page_content
  | DeletePage string
  | SaveSiteConfig site_config

datatype call =
    GetSiteConfig
  | GetProducts
  | GetBlogs
  | GetPages
  | Write mutation

record 'db world =
  db :: 'db
  calls :: "call list"

subsection \<open>\<open>fetchData\<close>\<close>

text \<open>
  How an asynchronous handler ends: its promise resolves, it rejects, or it resolves
  while a promise it started and did not await rejects with nobody listening.
\<close>

datatype outcome =
    Resolved
  | Rejected error
  | UnhandledRejection error

text \<open>
  \<open>Promise.all\<close> over the four reads. All four calls are made when the array is built,
  in the order written; the state setters run only when every promise has resolved.
  The model runs the four reads one after the other against the same backend; of several
  rejections it reports the first in that order.
\<close>

definition fetchData :: "'db store \<Rightarrow> app_state \<times> 'db world \<Rightarrow> (error + unit) \<times> app_state \<times> 'db world" where
  "fetchData st sw =
    (let s1 = (fst sw)\<lparr>loading := True\<rparr>;
         w = snd sw;
         w1 = w\<lparr>calls := calls w @ [GetSiteConfig, GetProducts, GetBlogs, GetPages]\<rparr>
     in case getSiteConfig st (db w) of
          Inl e \<Rightarrow> (Inl e, s1, w1)
        | Inr c \<Rightarrow>
       (case getProducts st (db w) of
          Inl e \<Rightarrow> (Inl e, s1, w1)
        | Inr p \<Rightarrow>
       (case getBlogs st (db w) of
          Inl e \<Rightarrow> (Inl e, s1, w1)
        | Inr bl \<Rightarrow>
       (case getPages st (db w) of
          Inl e \<Rightarrow> (Inl e, s1, w1)
        | Inr pg \<Rightarrow>
            (Inr (), s1\<lparr>config := c, products := p, blogs := bl, pages := pg, loading := False\<rparr>,
             w1)))))"

subsection \<open>\<open>handleLoginSubmit\<close>\<close>

text \<open>\<open>a || d\<close> for an optional string \<open>a\<close>: \<open>undefined\<close> and the empty string are falsy.\<close>

definition or_else :: "string option \<Rightarrow> string \<Rightarrow> string" where
  "or_else a d = (case a of None \<Rightarrow> d | Some m \<Rightarrow> if m = [] then d else m)"

definition handleLoginSubmit :: "'a auth_service \<Rightarrow> app_state \<times> 'a \<Rightarrow> app_state \<times> 'a" where
  "handleLoginSubmit svc sa =
    (let s = fst sa;
         (result, a') = login svc (loginPassword s) (snd sa)
     in if success result
        then (s\<lparr>loginPassword := [], loginError := [], view := ADMIN_DASHBOARD\<rparr>, a')
        else (s\<lparr>loginError := or_else (error result) ''Login gagal''\<rparr>, a'))"

subsection \<open>The handlers for the admin dashboard\<close>

text \<open>
  Each handler is \<open>await write(x); fetchData();\<close>. A write that rejects ends the handler
  there. The call of \<open>fetchData\<close> is not awaited, so the handler's own promise resolves
  whatever the reload does; the model follows the reload to its end all the same.
\<close>

definition after_write :: "'db store \<Rightarrow> mutation \<Rightarrow> ('db \<Rightarrow> error + 'db) \<Rightarrow> app_state \<times> 'db world \<Rightarrow> outcome \<times> app_state \<times> 'db world" where
  "after_write st m wr sw =
    (let s = fst sw;
         w = snd sw;
         w1 = w\<lparr>calls := calls w @ [Write m]\<rparr>
     in case wr (db w) of
          Inl e \<Rightarrow> (Rejected e, s, w1)
        | Inr d \<Rightarrow>
            (case fetchData st (s, w1\<lparr>db := d\<rparr>) of
               (Inl e, s', w') \<Rightarrow> (UnhandledRejection e, s', w')
             | (Inr u, s', w') \<Rightarrow> (Resolved, s', w')))"

definition onSaveProduct :: "'db store \<Rightarrow> product \<Rightarrow> app_state \<times> 'db world \<Rightarrow> outcome \<times> app_state \<times> 'db world" where
  "onSaveProduct st p = after_write st (SaveProduct p) (saveProduct st p)"

definition onDeleteProduct :: "'db store \<Rightarrow> string \<Rightarrow> app_state \<times> 'db world \<Rightarrow> outcome \<times> app_state \<times> 'db world" where
  "onDeleteProduct st i = after_write st (DeleteProduct i) (deleteProduct st i)"

definition onSaveBlog :: "'db store \<Rightarrow> blog_post \<Rightarrow> app_state \<times> 'db world \<Rightarrow> outcome \<times> app_state \<times> 'db world" where
  "onSaveBlog st bl = after_write st (SaveBlog bl) (saveBlog st bl)"

definition onDeleteBlog :: "'db store \<Rightarrow> string \<Rightarrow> app_state \<times> 'db world \<Rightarrow> outcome \<times> app_state \<times> 'db world" where
  "onDeleteBlog st i = after_write st (DeleteBlog i) (deleteBlog st i)"

definition onSavePage :: "'db store \<Rightarrow> page_content \<Rightarrow> app_state \<times> 'db world \<Rightarrow> outcome \<times> app_state \<times> 'db world" where
  "onSavePage st p = after_write st (SavePage p) (savePage st p)"

definition onDeletePage :: "'db store \<Rightarrow> string \<Rightarrow> app_state \<times> 'db world \<Rightarrow> outcome \<times> app_state \<times> 'db world" where
  "onDeletePage st i = after_write st (DeletePage i) (deletePage st i)"

definition onSaveConfig :: "'db store \<Rightarrow> site_config \<Rightarrow> app_state \<times> 'db world \<Rightarrow> outcome \<times> app_state \<times> 'db world" where
  "onSaveConfig st c = after_write st (SaveSiteConfig c) (saveSiteConfig st c)"

text \<open>
  The dashboard receives the seven handlers as props; \<open>admin_action\<close> is the handler it
  calls for a mutation, and \<open>write_call\<close> the store call that handler awaits.
\<close>

fun admin_action :: "'db store \<Rightarrow> mutation \<Rightarrow> app_state \<times> 'db world \<Rightarrow> outcome \<times> app_state \<times> 'db world" where
  "admin_action st (SaveProduct p) = onSaveProduct st p"
| "admin_action st (DeleteProduct i) = onDeleteProduct st i"
| "admin_action st (SaveBlog bl) = onSaveBlog st bl"
| "admin_action st (DeleteBlog i) = onDeleteBlog st i"
| "admin_action st (SavePage p) = onSavePage st p"
| "admin_action st (DeletePage i) = onDeletePage st i"
| "admin_action st (SaveSiteConfig c) = onSaveConfig st c"

fun write_call :: "'db store \<Rightarrow> mutation \<Rightarrow> 'db \<Rightarrow> error + 'db" where
  "write_call st (SaveProduct p) = saveProduct st p"
| "write_call st (DeleteProduct i) = deleteProduct st i"
| "write_call st (SaveBlog bl) = saveBlog st bl"
| "write_call st (DeleteBlog i) = deleteBlog st i"
| "write_call st (SavePage p) = savePage st p"
| "write_call st (DeletePage i) = deletePage st i"
| "write_call st (SaveSiteConfig c) = saveSiteConfig st c"

subsection \<open>Rendering\<close>

text \<open>
  What a render returns. The components \<open>App\<close> imports appear as a constructor holding
  the data props they are given; the props that are callbacks are left out. Plain markup
  is kept only as far as it nests these.
\<close>

datatype node =
    NullNode
  | EmptyDiv
  | LoadingIndicator
  | Fragment "node list"
  | Div "node list"
  | SeoHead string string "string option" "string option" "site_config option"
  | LoginForm bool string "string option"
  | AdminDashboard "product list" "blog_post list" "page_content list" "site_config option"
  | Shop "product list"
  | ProductDetail product "site_config option"
  | BlogArticle blog_post
  | BlogGrid "blog_post list"
  | DynamicPageDisplay page_content
  | Home "product list" "blog_post list" "site_config option"
  | Navbar PageView "site_config option" "page_content list" bool
  | Footer "site_config option" "page_content list"
  | WhatsAppFloatingButton "site_config option"

text \<open>
  \<open>renderContent\<close>, case by case. It returns the node together with the state, because
  the dashboard case calls \<open>setView\<close>. Reading \<open>config.shopName\<close> in the default case
  throws a \<open>TypeError\<close> when \<open>config\<close> is \<open>null\<close>.
\<close>

definition renderContent :: "'a auth_service \<Rightarrow> 'a \<Rightarrow> app_state \<Rightarrow> (error + node) \<times> app_state" where
  "renderContent svc a s =
    (case view s of
       ADMIN_LOGIN \<Rightarrow>
         (Inr (Div [SeoHead ''Admin Login'' ''Restricted Area'' None None (config s),
                    LoginForm (showPassword s) (loginPassword s)
                      (if loginError s = [] then None else Some (loginError s))]), s)
     | ADMIN_DASHBOARD \<Rightarrow>
         if \<not> checkIsAuthenticated svc a then (Inr NullNode, s\<lparr>view := ADMIN_LOGIN\<rparr>)
         else (Inr (Fragment [SeoHead ''Dashboard'' ''Admin Control Panel'' None None (config s),
                              AdminDashboard (products s) (blogs s) (pages s) (config s)]), s)
     | PRODUCT_DETAIL \<Rightarrow>
         (case selectedProduct s of
            Some p \<Rightarrow>
              (Inr (Fragment [SeoHead (product_name p) (description p) (Some (product_image p))
                                (Some ''product'') (config s),
                              ProductDetail p (config s)]), s)
          | None \<Rightarrow> (Inr (Shop (products s)), s))
     | SHOP \<Rightarrow>
         (Inr (Fragment [SeoHead ''Katalog Produk'' ''Jual Audio Mobil Berkualitas'' None None (config s),
                         Shop (products s)]), s)
     | BLOG_DETAIL \<Rightarrow>
         (case selectedBlog s of
            Some bl \<Rightarrow>
              (Inr (Div [SeoHead (blog_title bl) (excerpt bl) (Some (blog_image bl))
                           (Some ''article'') (config s),
                         BlogArticle bl]), s)
          | None \<Rightarrow> (Inr EmptyDiv, s))
     | BLOG \<Rightarrow>
         (Inr (Div [SeoHead ''Artikel'' ''Tips Audio Mobil'' None None (config s),
                    BlogGrid (blogs s)]), s)
     | DYNAMIC_PAGE \<Rightarrow>
         (case selectedPage s of
            Some pg \<Rightarrow>
              (Inr (Fragment [SeoHead (page_title pg) (page_title pg) None None (config s),
                              DynamicPageDisplay pg]), s)
          | None \<Rightarrow> (Inr NullNode, s))
     | HOME \<Rightarrow>
         (case config s of
            None \<Rightarrow> (Inl TypeError, s)
          | Some c \<Rightarrow>
              (Inr (Fragment [SeoHead ''Home'' (shopName c) None None (config s),
                              Home (products s) (blogs s) (config s)]), s)))"

text \<open>
  The body of \<open>App\<close> for one render: the loading guard, then the admin views bare and
  every other view inside the page layout.
\<close>

definition App :: "'a auth_service \<Rightarrow> 'a \<Rightarrow> app_state \<Rightarrow> (error + node) \<times> app_state" where
  "App svc a s =
    (if loading s \<or> config s = None then (Inr LoadingIndicator, s)
     else if view s = ADMIN_DASHBOARD \<or> view s = ADMIN_LOGIN then renderContent svc a s
     else case renderContent svc a s of
            (Inl e, s') \<Rightarrow> (Inl e, s')
          | (Inr n, s') \<Rightarrow>
              (Inr (Div [Navbar (view s) (config s) (pages s) (isDarkMode s),
                         Div [n],
                         Footer (config s) (pages s),
                         WhatsAppFloatingButton (config s)]), s'))"

text \<open>The \<open>config\<close> props handed to the components inside a node.\<close>

fun config_props :: "node \<Rightarrow> site_config option list" where
  "config_props (Fragment ns) = concat (map config_props ns)"
| "config_props (Div ns) = concat (map config_props ns)"
| "config_props (SeoHead t d i ty c) = [c]"
| "config_props (AdminDashboard ps bs pgs c) = [c]"
| "config_props (ProductDetail p c) = [c]"
| "config_props (Home ps bs c) = [c]"
| "config_props (Navbar v c pgs dm) = [c]"
| "config_props (Footer c pgs) = [c]"
| "config_props (WhatsAppFloatingButton c) = [c]"
| "config_props n = []"

text \<open>Whether a node holds the dashboard, at any depth.\<close>

fun has_dashboard :: "node \<Rightarrow> bool" where
  "has_dashboard (AdminDashboard ps bs pgs c) = True"
| "has_dashboard (Fragment ns) = list_ex has_dashboard ns"
| "has_dashboard (Div ns) = list_ex has_dashboard ns"
| "has_dashboard n = False"

section \<open>Notions the properties are stated with\<close>

text \<open>
  A string of six hexadecimal digits, and a hex colour: six digits with or without a
  leading \<open>#\<close>. \<open>parseable\<close> says that a JavaScript value is a string holding a
  hex colour.
\<close>

definition hex6 :: "string \<Rightarrow> bool" where
  "hex6 s = (length s = 6 \<and> list_all is_hex s)"

definition valid_hex :: "string \<Rightarrow> bool" where
  "valid_hex s = (hex6 s \<or> (case s of [] \<Rightarrow> False | c # t \<Rightarrow> c = CHR ''#'' \<and> hex6 t))"

definition parseable :: "jsval \<Rightarrow> bool" where
  "parseable v = (case v of JString s \<Rightarrow> valid_hex s | _ \<Rightarrow> False)"

text \<open>Letter case of a character, for comparing two spellings of a colour.\<close>

definition to_upper :: "char \<Rightarrow> char" where
  "to_upper c =
    (case map_of (zip ''abcdefghijklmnopqrstuvwxyz'' ''ABCDEFGHIJKLMNOPQRSTUVWXYZ'') c of
       Some u \<Rightarrow> u | None \<Rightarrow> c)"

definition to_lower :: "char \<Rightarrow> char" where
  "to_lower c =
    (case map_of (zip ''ABCDEFGHIJKLMNOPQRSTUVWXYZ'' ''abcdefghijklmnopqrstuvwxyz'') c of
       Some u \<Rightarrow> u | None \<Rightarrow> c)"

text \<open>A colour whose three channels are integers from 0 to 255.\<close>

definition byte_rgb :: "rgb \<Rightarrow> bool" where
  "byte_rgb c = (0 \<le> r c \<and> r c \<le> 255 \<and> 0 \<le> g c \<and> g c \<le> 255 \<and> 0 \<le> b c \<and> b c \<le> 255)"

text \<open>
  What the range proof needs of a weight \<open>w\<close>: it and the rounded \<open>1 - w\<close> are not
  negative, and three roundings, each growing a value by at most a factor
  \<open>1 + 2 ^ -53\<close>, leave the blend of two channels below \<open>255.5\<close>.
\<close>

definition weight_ok :: "rat \<Rightarrow> bool" where
  "weight_ok w = (0 \<le> w \<and> 0 \<le> fsub 1 w \<and>
     255 * (fsub 1 w + w) * ((1 + 1 / 2 ^ 53) * (1 + 1 / 2 ^ 53)) < 255 + 1 / 2)"

subsection \<open>Collaborators to run the handlers against\<close>

text \<open>
  Modelled from the spec: the Auth Gate, whose module \<open>./services/authService\<close> is not
  among the sources. \<open>login\<close> compares the password with a stored secret and returns a
  success flag and an optional error message; a wrong password is answered with
  \<open>{success: false, error: "Login gagal"}\<close> and leaves the authentication state alone. The
  authentication state is one flag, which \<open>checkIsAuthenticated\<close> reads and \<open>logout\<close>
  clears.
\<close>

definition spec_auth :: "string \<Rightarrow> bool auth_service" where
  "spec_auth secret =
    \<lparr>login = (\<lambda>pw a. if pw = secret then (\<lparr>success = True, error = None\<rparr>, True)
                       else (\<lparr>success = False, error = Some ''Login gagal''\<rparr>, a)),
     checkIsAuthenticated = (\<lambda>a. a),
     logout = (\<lambda>a. False)\<rparr>"

text \<open>
  Modelled from the spec: the Data Store Adapter, whose module \<open>./services/store\<close> is not
  among the sources, over a backend kept in memory. A read returns a whole collection, a
  save is an upsert keyed by identifier, a delete is keyed by identifier.
\<close>

record backend =
  stored_config :: "site_config option"
  stored_products :: "product list"
  stored_blogs :: "blog_post list"
  stored_pages :: "page_content list"

definition upsert :: "('x \<Rightarrow> string) \<Rightarrow> 'x \<Rightarrow> 'x list \<Rightarrow> 'x list" where
  "upsert key x xs =
    (if list_ex (\<lambda>y. key y = key x) xs then map (\<lambda>y. if key y = key x then x else y) xs
     else xs @ [x])"

definition memory_store :: "backend store" where
  "memory_store =
    \<lparr>getSiteConfig = (\<lambda>d. Inr (stored_config d)),
     getProducts = (\<lambda>d. Inr (stored_products d)),
     getBlogs = (\<lambda>d. Inr (stored_blogs d)),
     getPages = (\<lambda>d. Inr (stored_pages d)),
     saveProduct = (\<lambda>p d. Inr (d\<lparr>stored_products := upsert product_id p (stored_products d)\<rparr>)),
     deleteProduct = (\<lambda>i d. Inr (d\<lparr>stored_products := filter (\<lambda>p. product_id p \<noteq> i) (stored_products d)\<rparr>)),
     saveBlog = (\<lambda>p d. Inr (d\<lparr>stored_blogs := upsert blog_id p (stored_blogs d)\<rparr>)),
     deleteBlog = (\<lambda>i d. Inr (d\<lparr>stored_blogs := filter (\<lambda>p. blog_id p \<noteq> i) (stored_blogs d)\<rparr>)),
     savePage = (\<lambda>p d. Inr (d\<lparr>stored_pages := upsert page_id p (stored_pages d)\<rparr>)),
     deletePage = (\<lambda>i d. Inr (d\<lparr>stored_pages := filter (\<lambda>p. page_id p \<noteq> i) (stored_pages d)\<rparr>)),
     saveSiteConfig = (\<lambda>c d. Inr (d\<lparr>stored_config := Some c\<rparr>))\<rparr>"

text \<open>
  Modelled from the spec: every operation of the adapter may fail with a network or
  backend error. Two adapters that do: one whose read of the products rejects, one whose
  delete of a product rejects.
\<close>

definition read_failing_store :: "backend store" where
  "read_failing_store = memory_store\<lparr>getProducts := (\<lambda>d. Inl (Rejection ''offline''))\<rparr>"

definition write_failing_store :: "backend store" where
  "write_failing_store = memory_store\<lparr>deleteProduct := (\<lambda>i d. Inl (Rejection ''denied''))\<rparr>"

text \<open>Sample data for the closed instances of the theorems.\<close>

definition demo_config :: site_config where
  "demo_config =
    \<lparr>shopName = ''Audio Mobil'', logoUrl = None, themeColor = ''#2563EB'',
     whatsappNumber = ''628'', address = ''Jakarta'', email = ''toko@example.com'',
     welcomeMessage = ''Halo'', footerDescription = ''Toko audio'', heroImage = None,
     aboutUsTitle = ''Tentang'', aboutUsContent = ''Kami'', aboutUsImage = ''about.png''\<rparr>"

definition demo_product :: "string \<Rightarrow> product" where
  "demo_product i =
    \<lparr>product_id = i, product_name = ''Speaker'', category = ''Audio'', price = 100,
     description = ''Speaker mobil'', product_image = ''speaker.png'', featured = False\<rparr>"

definition demo_backend :: backend where
  "demo_backend =
    \<lparr>stored_config = Some demo_config,
     stored_products = [demo_product ''p1'', demo_product ''p2''],
     stored_blogs = [], stored_pages = []\<rparr>"

definition demo_state :: app_state where
  "demo_state = initial_state\<lparr>loading := False, config := Some demo_config\<rparr>"

section \<open>Binary64 rounding\<close>

text \<open>
  \<open>exponent\<close> is the binary exponent, a rounding moves a value by at most half a unit
  in the last place, and so by at most the factor \<open>1 + 2 ^ -53\<close>.
\<close>

lemma pow2_pos: "0 < pow2 e"
  by (simp add: pow2_def)

lemma pow2_powi: "pow2 e = 2 powi e"
  by (simp add: pow2_def power_int_def inverse_eq_divide power_one_over)

lemma exponent_lower:
  assumes "0 < x"
  shows "pow2 (exponent x) \<le> x"
proof (cases "1 \<le> x")
  case True
  then have pos: "0 < \<lfloor>x\<rfloor>" by linarith
  then have "1 \<le> bitlen \<lfloor>x\<rfloor>"
    using bitlen_eq_zero_iff [of "\<lfloor>x\<rfloor>"] bitlen_nonneg [of "\<lfloor>x\<rfloor>"] by linarith
  then have e: "pow2 (exponent x) = 2 ^ nat (bitlen \<lfloor>x\<rfloor> - 1)"
    using True by (simp add: exponent_def pow2_def)
  have "(2::int) ^ nat (bitlen \<lfloor>x\<rfloor> - 1) \<le> \<lfloor>x\<rfloor>"
    using bitlen_bounds [OF pos] by simp
  then have "(of_int (2 ^ nat (bitlen \<lfloor>x\<rfloor> - 1)) :: rat) \<le> of_int \<lfloor>x\<rfloor>"
    by (simp only: of_int_le_iff)
  also have "\<dots> \<le> x" by simp
  finally show ?thesis by (simp add: e)
next
  case False
  define m where "m = \<lceil>1 / x\<rceil> - 1"
  from False assms have "1 < 1 / x" by simp
  then have mpos: "0 < m" unfolding m_def by linarith
  have e: "pow2 (exponent x) = 1 / 2 ^ nat (bitlen m)"
    using False bitlen_nonneg [of m] by (simp add: exponent_def pow2_def m_def)
  have "m < 2 ^ nat (bitlen m)" using bitlen_bounds [OF mpos] by simp
  then have "\<lceil>1 / x\<rceil> \<le> 2 ^ nat (bitlen m)" by (simp add: m_def)
  then have "1 / x \<le> of_int (2 ^ nat (bitlen m))" by (simp only: ceiling_le_iff)
  then have "1 / x \<le> 2 ^ nat (bitlen m)" by simp
  then have "1 \<le> 2 ^ nat (bitlen m) * x" using assms by (simp add: field_simps)
  then show ?thesis by (simp add: e field_simps)
qed

lemma exponent_upper:
  assumes "0 < x"
  shows "x < pow2 (exponent x + 1)"
proof (cases "1 \<le> x")
  case True
  then have pos: "0 < \<lfloor>x\<rfloor>" by linarith
  then have "1 \<le> bitlen \<lfloor>x\<rfloor>"
    using bitlen_eq_zero_iff [of "\<lfloor>x\<rfloor>"] bitlen_nonneg [of "\<lfloor>x\<rfloor>"] by linarith
  then have e: "pow2 (exponent x + 1) = 2 ^ nat (bitlen \<lfloor>x\<rfloor>)"
    using True by (simp add: exponent_def pow2_def)
  have "\<lfloor>x\<rfloor> < 2 ^ nat (bitlen \<lfloor>x\<rfloor>)"
    using bitlen_bounds [OF pos] by simp
  then have "x < of_int (2 ^ nat (bitlen \<lfloor>x\<rfloor>))"
    by (simp only: floor_less_iff)
  then show ?thesis by (simp add: e)
next
  case False
  define m where "m = \<lceil>1 / x\<rceil> - 1"
  from False assms have "1 < 1 / x" by simp
  then have mpos: "0 < m" unfolding m_def by linarith
  then have b1: "1 \<le> bitlen m"
    using bitlen_eq_zero_iff [of m] bitlen_nonneg [of m] by linarith
  have e: "pow2 (exponent x + 1) = 1 / 2 ^ nat (bitlen m - 1)"
    using False b1 by (auto simp add: exponent_def pow2_def m_def)
  have "2 ^ nat (bitlen m - 1) \<le> m" using bitlen_bounds [OF mpos] by simp
  then have "2 ^ nat (bitlen m - 1) < \<lceil>1 / x\<rceil>" by (simp add: m_def)
  then have "of_int (2 ^ nat (bitlen m - 1)) < 1 / x" by (simp only: less_ceiling_iff)
  then have "2 ^ nat (bitlen m - 1) < 1 / x" by simp
  then have "2 ^ nat (bitlen m - 1) * x < 1" using assms by (simp add: field_simps)
  then have "x < 1 / 2 ^ nat (bitlen m - 1)" by (simp add: field_simps)
  then show ?thesis by (simp only: e)
qed

lemma rne_error: "\<bar>of_int (rne y) - y\<bar> \<le> 1 / 2"
proof -
  have "of_int \<lfloor>y\<rfloor> \<le> y" "y < of_int \<lfloor>y\<rfloor> + 1" by linarith+
  then show ?thesis by (auto simp add: rne_def Let_def)
qed

lemma rne_nonneg: "0 \<le> y \<Longrightarrow> 0 \<le> rne y"
  by (auto simp add: rne_def Let_def)

lemma fl_nonneg: "0 \<le> x \<Longrightarrow> 0 \<le> fl x"
  using pow2_pos by (auto simp add: fl_def Let_def rne_nonneg less_imp_le)

lemma fl_upper:
  assumes "0 \<le> x"
  shows "fl x \<le> x * (1 + 1 / 2 ^ 53)"
proof (cases "x = 0")
  case True
  then show ?thesis by (simp add: fl_def)
next
  case False
  with assms have xpos: "0 < x" by simp
  define q where "q = pow2 (exponent x - 52)"
  have qpos: "0 < q" by (simp add: q_def pow2_pos)
  have flq: "fl x = of_int (rne (x / q)) * q"
    using False xpos by (simp add: fl_def Let_def q_def)
  have "of_int (rne (x / q)) - x / q \<le> 1 / 2"
    using rne_error [of "x / q"] by linarith
  then have "(of_int (rne (x / q)) - x / q) * q \<le> 1 / 2 * q"
    using qpos by (simp only: mult_le_cancel_right_pos)
  then have 1: "fl x - x \<le> q / 2"
    using qpos by (simp add: flq algebra_simps)
  have "q / 2 = pow2 (exponent x) / 2 ^ 53"
    by (simp add: q_def pow2_powi power_int_diff)
  also have "\<dots> \<le> x / 2 ^ 53"
    using exponent_lower [OF xpos] by (simp add: divide_right_mono)
  finally have "q / 2 \<le> x / 2 ^ 53" .
  with 1 show ?thesis by (simp add: algebra_simps)
qed

text \<open>
  The model against numbers JavaScript is known for: the literal \<open>0.1\<close> is
  \<open>3602879701896397 / 2 ^ 55\<close>, \<open>1 - 0.9\<close> is not \<open>0.1\<close>, and \<open>0.1 + 0.2\<close> is not \<open>0.3\<close>;
  integers such as the channels are kept as they are.
\<close>

lemma fl_known_values:
  "fl (1 / 10) = 3602879701896397 / 2 ^ 55"
  "fsub 1 (fl (9 / 10)) \<noteq> fl (1 / 10)"
  "fadd (fl (1 / 10)) (fl (2 / 10)) \<noteq> fl (3 / 10)"
  "fl 255 = 255"
  "fsub 1 (fl (6 / 10)) = fl (4 / 10)"
  by code_simp+

lemma Math_round_range:
  assumes "0 \<le> x" "x < 255 + 1 / 2"
  shows "0 \<le> Math_round x \<and> Math_round x \<le> 255"
  using assms unfolding Math_round_def by (simp add: le_floor_iff floor_le_iff)

lemma mix_channel_range:
  assumes c: "0 \<le> c" "c \<le> 255" and c2: "0 \<le> c2"
    and w: "0 \<le> w" "0 \<le> fsub 1 w"
    and bound: "(255 * fsub 1 w + of_int c2 * w) * ((1 + 1 / 2 ^ 53) * (1 + 1 / 2 ^ 53)) < 255 + 1 / 2"
  shows "0 \<le> mix_channel c c2 w \<and> mix_channel c c2 w \<le> 255"
proof -
  let ?u = "1 + 1 / 2 ^ 53 :: rat"
  let ?w1 = "fsub 1 w"
  let ?a = "fmul (of_int c) ?w1"
  let ?b = "fmul (of_int c2) w"
  have u: "0 \<le> ?u" by simp
  have x0: "0 \<le> of_int c * ?w1" using c w by simp
  have y0: "0 \<le> of_int c2 * w" using c2 w by simp
  have a0: "0 \<le> ?a" unfolding fmul_def by (rule fl_nonneg [OF x0])
  have b0: "0 \<le> ?b" unfolding fmul_def by (rule fl_nonneg [OF y0])
  have cw: "of_int c * ?w1 \<le> 255 * ?w1"
    using c w by (intro mult_right_mono) simp_all
  have "of_int c * ?w1 * ?u \<le> 255 * ?w1 * ?u"
    by (rule mult_right_mono [OF cw u])
  moreover have "?a \<le> of_int c * ?w1 * ?u"
    unfolding fmul_def by (rule fl_upper [OF x0])
  ultimately have a: "?a \<le> 255 * ?w1 * ?u" by linarith
  have b: "?b \<le> of_int c2 * w * ?u"
    unfolding fmul_def by (rule fl_upper [OF y0])
  have s0: "0 \<le> ?a + ?b" using a0 b0 by simp
  have "fadd ?a ?b \<le> (?a + ?b) * ?u"
    unfolding fadd_def by (rule fl_upper [OF s0])
  also have "\<dots> \<le> (255 * ?w1 * ?u + of_int c2 * w * ?u) * ?u"
    by (rule mult_right_mono [OF add_mono [OF a b] u])
  also have "\<dots> = (255 * ?w1 + of_int c2 * w) * (?u * ?u)"
    by (simp add: algebra_simps)
  finally have "fadd ?a ?b < 255 + 1 / 2" using bound by linarith
  moreover have "0 \<le> fadd ?a ?b" unfolding fadd_def by (rule fl_nonneg [OF s0])
  ultimately show ?thesis
    unfolding mix_channel_def by (intro Math_round_range)
qed

lemma mix_channel_byte:
  assumes c: "0 \<le> c" "c \<le> 255" and c2: "0 \<le> c2" "c2 \<le> 255"
    and w: "0 \<le> w" "0 \<le> fsub 1 w"
    and bound: "255 * (fsub 1 w + w) * ((1 + 1 / 2 ^ 53) * (1 + 1 / 2 ^ 53)) < 255 + 1 / 2"
  shows "0 \<le> mix_channel c c2 w \<and> mix_channel c c2 w \<le> 255"
proof (rule mix_channel_range [OF c c2(1) w])
  let ?u = "(1 + 1 / 2 ^ 53) * (1 + 1 / 2 ^ 53) :: rat"
  have "of_int c2 * w \<le> 255 * w"
    using c2 w by (intro mult_right_mono) simp_all
  then have "255 * fsub 1 w + of_int c2 * w \<le> 255 * (fsub 1 w + w)"
    by (simp add: algebra_simps)
  then have "(255 * fsub 1 w + of_int c2 * w) * ?u \<le> 255 * (fsub 1 w + w) * ?u"
    by (rule mult_right_mono) simp
  with bound show "(255 * fsub 1 w + of_int c2 * w) * ?u < 255 + 1 / 2" by linarith
qed

lemma weights_ok:
  "weight_ok (fl (95 / 100))" "weight_ok (fl (9 / 10))" "weight_ok (fl (75 / 100))"
  "weight_ok (fl (6 / 10))" "weight_ok (fl (3 / 10))" "weight_ok (fl (1 / 10))"
  "weight_ok (fl (25 / 100))" "weight_ok (fl (4 / 10))"
  by code_simp+

section \<open>Theme Engine: parsing\<close>

lemma is_hex_cases: "is_hex c \<longleftrightarrow> c \<in> set ''0123456789abcdefABCDEF''"
  by (simp add: is_hex_def hex_table_def)

lemma hash_not_hex: "\<not> is_hex CHR ''#''"
  by (simp add: is_hex_def hex_table_def)

lemma hex_val_range: "0 \<le> hex_val c \<and> hex_val c \<le> 15"
  by (simp add: hex_val_def hex_table_def)

lemma to_upper_table:
  "\<forall>c \<in> set ''0123456789abcdefABCDEF''. is_hex (to_upper c) \<and> hex_val (to_upper c) = hex_val c"
  by (simp add: to_upper_def is_hex_def hex_val_def hex_table_def)

lemma to_lower_table:
  "\<forall>c \<in> set ''0123456789abcdefABCDEF''. is_hex (to_lower c) \<and> hex_val (to_lower c) = hex_val c"
  by (simp add: to_lower_def is_hex_def hex_val_def hex_table_def)

lemma to_upper_hex:
  assumes "is_hex c"
  shows "is_hex (to_upper c) \<and> hex_val (to_upper c) = hex_val c"
proof -
  from assms have "c \<in> set ''0123456789abcdefABCDEF''" by (simp only: is_hex_cases)
  with to_upper_table show ?thesis by blast
qed

lemma to_lower_hex:
  assumes "is_hex c"
  shows "is_hex (to_lower c) \<and> hex_val (to_lower c) = hex_val c"
proof -
  from assms have "c \<in> set ''0123456789abcdefABCDEF''" by (simp only: is_hex_cases)
  with to_lower_table show ?thesis by blast
qed

lemma length6:
  assumes "length s = 6"
  obtains c1 c2 c3 c4 c5 c6 where "s = [c1, c2, c3, c4, c5, c6]"
proof -
  from assms have "\<exists>c1 c2 c3 c4 c5 c6. s = [c1, c2, c3, c4, c5, c6]"
    by (auto simp add: numeral_eq_Suc length_Suc_conv)
  then show ?thesis using that by blast
qed

lemma regex_exec_hex6:
  assumes "hex6 [c1, c2, c3, c4, c5, c6]"
  shows "regex_exec [c1, c2, c3, c4, c5, c6] = Some ([c1, c2], [c3, c4], [c5, c6])"
    and "regex_exec (CHR ''#'' # [c1, c2, c3, c4, c5, c6]) = Some ([c1, c2], [c3, c4], [c5, c6])"
proof -
  from assms have "c1 \<noteq> CHR ''#''" using hash_not_hex by (auto simp add: hex6_def)
  with assms show "regex_exec [c1, c2, c3, c4, c5, c6] = Some ([c1, c2], [c3, c4], [c5, c6])"
    by (simp add: regex_exec_def hex6_def)
  from assms show "regex_exec (CHR ''#'' # [c1, c2, c3, c4, c5, c6]) = Some ([c1, c2], [c3, c4], [c5, c6])"
    by (simp add: regex_exec_def hex6_def)
qed

lemma regex_exec_invalid:
  assumes "\<not> valid_hex s"
  shows "regex_exec s = None"
proof (cases s)
  case Nil
  then show ?thesis by (simp add: regex_exec_def)
next
  case (Cons c t)
  with assms show ?thesis
    by (auto simp add: regex_exec_def valid_hex_def hex6_def)
qed

lemma hexToRgb_hex6:
  assumes "hex6 [c1, c2, c3, c4, c5, c6]"
  shows "hexToRgb (JString [c1, c2, c3, c4, c5, c6]) =
      \<lparr>r = 16 * hex_val c1 + hex_val c2, g = 16 * hex_val c3 + hex_val c4,
       b = 16 * hex_val c5 + hex_val c6\<rparr>"
    and "hexToRgb (JString (CHR ''#'' # [c1, c2, c3, c4, c5, c6])) =
      \<lparr>r = 16 * hex_val c1 + hex_val c2, g = 16 * hex_val c3 + hex_val c4,
       b = 16 * hex_val c5 + hex_val c6\<rparr>"
  using regex_exec_hex6 [OF assms] by (simp_all add: hexToRgb_def parseInt16_def)

lemma hexToRgb_unparseable:
  assumes "\<not> parseable v"
  shows "hexToRgb v = default_rgb"
proof (cases v)
  case (JString s)
  with assms have "regex_exec s = None"
    by (simp add: parseable_def regex_exec_invalid)
  with JString show ?thesis by (simp add: hexToRgb_def)
qed (simp_all add: hexToRgb_def)

lemma hexToRgb_default: "hexToRgb (JString ''#2563EB'') = default_rgb"
  by (simp add: hexToRgb_def regex_exec_def is_hex_def hex_table_def parseInt16_def hex_val_def default_rgb_def)

lemma hexToRgb_map:
  assumes s: "hex6 s" and f: "\<forall>c. is_hex c \<longrightarrow> is_hex (f c) \<and> hex_val (f c) = hex_val c"
  shows "hex6 (map f s) \<and> hexToRgb (JString (map f s)) = hexToRgb (JString s)"
proof -
  from s obtain c1 c2 c3 c4 c5 c6 where cs: "s = [c1, c2, c3, c4, c5, c6]"
    by (auto simp add: hex6_def elim: length6)
  from s f have m: "hex6 (map f s)" by (simp add: hex6_def list_all_iff)
  then have m': "hex6 [f c1, f c2, f c3, f c4, f c5, f c6]" by (simp add: cs)
  from s f have v: "hex_val (f c1) = hex_val c1" "hex_val (f c2) = hex_val c2"
    "hex_val (f c3) = hex_val c3" "hex_val (f c4) = hex_val c4"
    "hex_val (f c5) = hex_val c5" "hex_val (f c6) = hex_val c6"
    by (simp_all add: hex6_def cs)
  have "hexToRgb (JString (map f s)) = hexToRgb (JString s)"
    using hexToRgb_hex6(1) [OF m'] hexToRgb_hex6(1) [of c1 c2 c3 c4 c5 c6] s
    by (simp add: cs v)
  with m show ?thesis by simp
qed

lemma hexToRgb_hash:
  assumes "hex6 s"
  shows "hexToRgb (JString (CHR ''#'' # s)) = hexToRgb (JString s)"
proof -
  from assms obtain c1 c2 c3 c4 c5 c6 where cs: "s = [c1, c2, c3, c4, c5, c6]"
    by (auto simp add: hex6_def elim: length6)
  show ?thesis using hexToRgb_hex6 [of c1 c2 c3 c4 c5 c6] assms by (simp add: cs)
qed

lemma hexToRgb_byte: "byte_rgb (hexToRgb v)"
proof (cases "parseable v")
  case False
  then show ?thesis by (simp add: hexToRgb_unparseable default_rgb_def byte_rgb_def)
next
  case True
  then obtain s where v: "v = JString s" and s: "valid_hex s"
    by (cases v) (simp_all add: parseable_def)
  from s obtain t where t: "hex6 t" and st: "s = t \<or> s = CHR ''#'' # t"
    by (cases s) (auto simp add: valid_hex_def)
  from t obtain c1 c2 c3 c4 c5 c6 where cs: "t = [c1, c2, c3, c4, c5, c6]"
    by (auto simp add: hex6_def elim: length6)
  have "hexToRgb v = \<lparr>r = 16 * hex_val c1 + hex_val c2, g = 16 * hex_val c3 + hex_val c4,
       b = 16 * hex_val c5 + hex_val c6\<rparr>"
    using hexToRgb_hex6 [of c1 c2 c3 c4 c5 c6] t st cs v by auto
  moreover have "0 \<le> 16 * hex_val x + hex_val y \<and> 16 * hex_val x + hex_val y \<le> 255" for x y
    using hex_val_range [of x] hex_val_range [of y] by linarith
  ultimately show ?thesis by (simp add: byte_rgb_def)
qed

section \<open>Theme Engine: the palette\<close>

lemma mix_byte:
  assumes "byte_rgb c1" "byte_rgb c2" "weight_ok w"
  shows "byte_rgb (mix c1 c2 w)"
  using assms unfolding byte_rgb_def weight_ok_def mix_def
  by (simp add: mix_channel_byte)

lemma palette_byte_all:
  assumes "byte_rgb base"
  shows "\<forall>p \<in> set (palette base). byte_rgb (snd p)"
proof -
  have wb: "byte_rgb white" "byte_rgb black" by (simp_all add: byte_rgb_def white_def black_def)
  show ?thesis unfolding palette_def
    using wb weights_ok assms by (simp add: mix_byte)
qed

lemma palette_byte:
  assumes "byte_rgb base" and "(k, sh) \<in> set (palette base)"
  shows "byte_rgb sh"
  using palette_byte_all [OF assms(1)] assms(2) by fastforce

lemma palette_keys:
  "map fst (palette base) = [50, 100, 200, 300, 400, 500, 600, 700, 800, 900, 950]"
  by (simp add: palette_def)

lemma css_triple_byte:
  assumes "byte_rgb sh"
  shows "css_triple sh = dec (nat (r sh)) @ '' '' @ dec (nat (g sh)) @ '' '' @ dec (nat (b sh))"
  using assms by (simp add: css_triple_def num_to_string_def byte_rgb_def)

lemma dec_keys:
  "dec 50 = ''50''" "dec 100 = ''100''" "dec 200 = ''200''" "dec 300 = ''300''"
  "dec 400 = ''400''" "dec 500 = ''500''" "dec 600 = ''600''" "dec 700 = ''700''"
  "dec 800 = ''800''" "dec 900 = ''900''" "dec 950 = ''950''"
  by code_simp+

lemma fold_setProperty_other:
  assumes "n \<notin> set (map (\<lambda>p. nm (fst p)) ps)"
  shows "fold (\<lambda>(key, v). setProperty (nm key) (f v)) ps style n = style n"
  using assms
proof (induction ps arbitrary: style)
  case Nil
  then show ?case by simp
next
  case (Cons p ps)
  then show ?case by (cases p) (simp add: setProperty_def)
qed

lemma fold_setProperty_lookup:
  assumes "distinct (map (\<lambda>p. nm (fst p)) ps)" and "(k, sh) \<in> set ps"
  shows "fold (\<lambda>(key, v). setProperty (nm key) (f v)) ps style (nm k) = Some (f sh)"
  using assms
proof (induction ps arbitrary: style)
  case Nil
  then show ?case by simp
next
  case (Cons p ps)
  show ?case
  proof (cases "p = (k, sh)")
    case True
    with Cons.prems(1) have other: "nm k \<notin> set (map (\<lambda>p. nm (fst p)) ps)" by simp
    have "fold (\<lambda>(key, v). setProperty (nm key) (f v)) (p # ps) style (nm k) =
        fold (\<lambda>(key, v). setProperty (nm key) (f v)) ps (setProperty (nm k) (f sh) style) (nm k)"
      using True by simp
    also have "\<dots> = setProperty (nm k) (f sh) style (nm k)"
      using other by (rule fold_setProperty_other)
    also have "\<dots> = Some (f sh)" by (simp add: setProperty_def)
    finally show ?thesis .
  next
    case False
    with Cons.prems have "(k, sh) \<in> set ps" and "distinct (map (\<lambda>p. nm (fst p)) ps)" by simp_all
    then show ?thesis using Cons.IH by simp
  qed
qed

lemma palette_names_distinct:
  "distinct (map (\<lambda>p. ''--brand-'' @ dec (fst p)) (palette base))"
  by (simp add: palette_def dec_keys)

lemma applyTheme_lookup:
  assumes "(k, sh) \<in> set (palette (hexToRgb v))"
  shows "applyTheme v style (''--brand-'' @ dec k) = Some (css_triple sh)"
  unfolding applyTheme_def
  by (rule fold_setProperty_lookup [OF palette_names_distinct assms])

lemma mix_example:
  "mix_channel 37 0 (fl (6 / 10)) = 15" "mix_channel 99 0 (fl (6 / 10)) = 40"
  "mix_channel 235 0 (fl (6 / 10)) = 94"
  by code_simp+

lemma css_example:
  "css_triple \<lparr>r = 37, g = 99, b = 235\<rparr> = ''37 99 235''"
  "css_triple \<lparr>r = 15, g = 40, b = 94\<rparr> = ''15 40 94''"
  by code_simp+

lemma palette_example:
  "(600, \<lparr>r = 37, g = 99, b = 235\<rparr>) \<in> set (palette (hexToRgb (JString ''#2563EB'')))"
  "(950, \<lparr>r = 15, g = 40, b = 94\<rparr>) \<in> set (palette (hexToRgb (JString ''#2563EB'')))"
  using mix_example
  by (simp_all add: hexToRgb_default default_rgb_def palette_def mix_def black_def)

section \<open>View Controller: rendering\<close>

lemma renderContent_no_dashboard:
  assumes "\<not> checkIsAuthenticated svc a" and "fst (renderContent svc a s) = Inr n"
  shows "\<not> has_dashboard n"
proof (cases "view s")
  case HOME
  with assms show ?thesis by (cases "config s") (auto simp add: renderContent_def)
next
  case SHOP
  with assms show ?thesis by (auto simp add: renderContent_def)
next
  case PRODUCT_DETAIL
  with assms show ?thesis by (cases "selectedProduct s") (auto simp add: renderContent_def)
next
  case BLOG
  with assms show ?thesis by (auto simp add: renderContent_def)
next
  case BLOG_DETAIL
  with assms show ?thesis by (cases "selectedBlog s") (auto simp add: renderContent_def)
next
  case DYNAMIC_PAGE
  with assms show ?thesis by (cases "selectedPage s") (auto simp add: renderContent_def)
next
  case ADMIN_LOGIN
  with assms show ?thesis by (auto simp add: renderContent_def)
next
  case ADMIN_DASHBOARD
  with assms show ?thesis by (auto simp add: renderContent_def)
qed

lemma renderContent_throws:
  assumes "fst (renderContent svc a s) = Inl e"
  shows "view s = HOME \<and> config s = None"
proof (cases "view s")
  case HOME
  with assms show ?thesis by (cases "config s") (auto simp add: renderContent_def)
next
  case SHOP
  with assms show ?thesis by (auto simp add: renderContent_def)
next
  case PRODUCT_DETAIL
  with assms show ?thesis by (cases "selectedProduct s") (auto simp add: renderContent_def)
next
  case BLOG
  with assms show ?thesis by (auto simp add: renderContent_def)
next
  case BLOG_DETAIL
  with assms show ?thesis by (cases "selectedBlog s") (auto simp add: renderContent_def)
next
  case DYNAMIC_PAGE
  with assms show ?thesis by (cases "selectedPage s") (auto simp add: renderContent_def)
next
  case ADMIN_LOGIN
  with assms show ?thesis by (auto simp add: renderContent_def)
next
  case ADMIN_DASHBOARD
  with assms show ?thesis by (auto simp add: renderContent_def split: if_splits)
qed

lemma renderContent_config_props:
  assumes "fst (renderContent svc a s) = Inr n" and "c \<in> set (config_props n)"
  shows "c = config s"
proof (cases "view s")
  case HOME
  with assms show ?thesis by (cases "config s") (auto simp add: renderContent_def)
next
  case SHOP
  with assms show ?thesis by (auto simp add: renderContent_def)
next
  case PRODUCT_DETAIL
  with assms show ?thesis by (cases "selectedProduct s") (auto simp add: renderContent_def)
next
  case BLOG
  with assms show ?thesis by (auto simp add: renderContent_def)
next
  case BLOG_DETAIL
  with assms show ?thesis by (cases "selectedBlog s") (auto simp add: renderContent_def)
next
  case DYNAMIC_PAGE
  with assms show ?thesis by (cases "selectedPage s") (auto simp add: renderContent_def)
next
  case ADMIN_LOGIN
  with assms show ?thesis by (auto simp add: renderContent_def)
next
  case ADMIN_DASHBOARD
  with assms show ?thesis by (auto simp add: renderContent_def split: if_splits)
qed

lemma App_loaded:
  assumes "\<not> loading s" and "config s \<noteq> None"
  shows "\<exists>n. fst (renderContent svc a s) = Inr n \<and>
    (fst (App svc a s) = Inr n \<or>
     fst (App svc a s) =
       Inr (Div [Navbar (view s) (config s) (pages s) (isDarkMode s), Div [n],
                 Footer (config s) (pages s), WhatsAppFloatingButton (config s)]))"
proof (cases "fst (renderContent svc a s)")
  case (Inl e)
  then show ?thesis using renderContent_throws [of svc a s e] assms by simp
next
  case (Inr n)
  then show ?thesis using assms
    by (cases "renderContent svc a s") (auto simp add: App_def)
qed

lemma App_no_throw: "fst (App svc a s) \<noteq> Inl e"
proof (cases "loading s \<or> config s = None")
  case True
  then show ?thesis by (simp add: App_def)
next
  case False
  then show ?thesis using App_loaded [of s svc a] by auto
qed

lemma App_config_props:
  assumes "fst (App svc a s) = Inr n" and "n \<noteq> LoadingIndicator"
  shows "config s \<noteq> None \<and> (\<forall>c \<in> set (config_props n). c = config s)"
proof (cases "loading s \<or> config s = None")
  case True
  then show ?thesis using assms by (simp add: App_def)
next
  case False
  then obtain m where m: "fst (renderContent svc a s) = Inr m"
    and n: "n = m \<or> n = Div [Navbar (view s) (config s) (pages s) (isDarkMode s), Div [m],
                 Footer (config s) (pages s), WhatsAppFloatingButton (config s)]"
    using App_loaded [of s svc a] assms by auto
  have "\<forall>c \<in> set (config_props m). c = config s"
    using renderContent_config_props [OF m] by blast
  then have "\<forall>c \<in> set (config_props n). c = config s"
    using n by auto
  then show ?thesis using False by simp
qed

lemma fetchData_rejected:
  assumes "fetchData st (s, w) = (Inl e, s', w')"
  shows "s' = s\<lparr>loading := True\<rparr>"
  using assms by (simp add: fetchData_def Let_def split: sum.splits)

lemma fetchData_ok:
  assumes "getSiteConfig st (db w) = Inr c" "getProducts st (db w) = Inr p"
    "getBlogs st (db w) = Inr bl" "getPages st (db w) = Inr pg"
  shows "fetchData st (s, w) =
    (Inr (), s\<lparr>config := c, products := p, blogs := bl, pages := pg, loading := False\<rparr>,
     w\<lparr>calls := calls w @ [GetSiteConfig, GetProducts, GetBlogs, GetPages]\<rparr>)"
  using assms by (simp add: fetchData_def Let_def)

lemma after_write_ok:
  assumes "wr (db w) = Inr d" "getSiteConfig st d = Inr c" "getProducts st d = Inr p"
    "getBlogs st d = Inr bl" "getPages st d = Inr pg"
  shows "after_write st m wr (s, w) =
    (Resolved, s\<lparr>config := c, products := p, blogs := bl, pages := pg, loading := False\<rparr>,
     w\<lparr>db := d, calls := calls w @ [Write m, GetSiteConfig, GetProducts, GetBlogs, GetPages]\<rparr>)"
  using assms by (simp add: after_write_def Let_def fetchData_ok)
lemma after_write_rejected:
  assumes "wr (db w) = Inl e"
  shows "after_write st m wr (s, w) = (Rejected e, s, w\<lparr>calls := calls w @ [Write m]\<rparr>)"
  using assms by (simp add: after_write_def Let_def)

lemma after_write_read_rejected:
  assumes "wr (db w) = Inr d"
    and "getSiteConfig st d = Inl e1 \<or> getProducts st d = Inl e2 \<or> getBlogs st d = Inl e3
      \<or> getPages st d = Inl e4"
  shows "\<exists>e. after_write st m wr (s, w) =
    (UnhandledRejection e, s\<lparr>loading := True\<rparr>,
     w\<lparr>db := d, calls := calls w @ [Write m, GetSiteConfig, GetProducts, GetBlogs, GetPages]\<rparr>)"
proof (cases "getSiteConfig st d")
  case Inl
  with assms(1) show ?thesis by (simp add: after_write_def fetchData_def Let_def)
next
  case c: Inr
  show ?thesis
  proof (cases "getProducts st d")
    case Inl
    with assms(1) c show ?thesis by (simp add: after_write_def fetchData_def Let_def)
  next
    case p: Inr
    show ?thesis
    proof (cases "getBlogs st d")
      case Inl
      with assms(1) c p show ?thesis by (simp add: after_write_def fetchData_def Let_def)
    next
      case bl: Inr
      show ?thesis
      proof (cases "getPages st d")
        case Inl
        with assms(1) c p bl show ?thesis by (simp add: after_write_def fetchData_def Let_def)
      next
        case Inr
        with assms(2) c p bl show ?thesis by simp
      qed
    qed
  qed
qed

lemma admin_action_after_write:
  "admin_action st m = after_write st m (write_call st m)"
  by (cases m)
    (simp_all add: onSaveProduct_def onDeleteProduct_def onSaveBlog_def onDeleteBlog_def
      onSavePage_def onDeletePage_def onSaveConfig_def)

lemma handleLoginSubmit_failed:
  assumes "login svc (loginPassword s) a = (res, a')" and "\<not> success res"
  shows "handleLoginSubmit svc (s, a) = (s\<lparr>loginError := or_else (error res) ''Login gagal''\<rparr>, a')"
  using assms by (simp add: handleLoginSubmit_def)

section \<open>The claims\<close>

subsection \<open>Theme Engine\<close>

text \<open>
  C1. For every valid 6-digit hex colour string, with or without the leading \<open>#\<close>, the
  parse succeeds and the palette \<open>applyTheme\<close> builds has exactly the eleven keys 50, 100,
  200, 300, 400, 500, 600, 700, 800, 900 and 950; every shade has three integer channels
  between 0 and 255, and the property \<open>--brand-<key>\<close> is set to the three channels in
  decimal, separated by single spaces.
\<close>

theorem applyTheme_palette:
  assumes "valid_hex s"
  shows "regex_exec s \<noteq> None
    \<and> map fst (palette (hexToRgb (JString s))) =
        [50, 100, 200, 300, 400, 500, 600, 700, 800, 900, 950]
    \<and> (\<forall>(k, sh) \<in> set (palette (hexToRgb (JString s))).
          0 \<le> r sh \<and> r sh \<le> 255 \<and> 0 \<le> g sh \<and> g sh \<le> 255 \<and> 0 \<le> b sh \<and> b sh \<le> 255
          \<and> applyTheme (JString s) style (''--brand-'' @ dec k) =
              Some (dec (nat (r sh)) @ '' '' @ dec (nat (g sh)) @ '' '' @ dec (nat (b sh))))"
proof -
  have 1: "regex_exec s \<noteq> None"
  proof -
    from assms obtain t where t: "hex6 t" and st: "s = t \<or> s = CHR ''#'' # t"
      by (cases s) (auto simp add: valid_hex_def)
    from t obtain c1 c2 c3 c4 c5 c6 where cs: "t = [c1, c2, c3, c4, c5, c6]"
      by (auto simp add: hex6_def elim: length6)
    show ?thesis using regex_exec_hex6 [of c1 c2 c3 c4 c5 c6] t st by (auto simp add: cs)
  qed
  have 3: "0 \<le> r sh \<and> r sh \<le> 255 \<and> 0 \<le> g sh \<and> g sh \<le> 255 \<and> 0 \<le> b sh \<and> b sh \<le> 255
          \<and> applyTheme (JString s) style (''--brand-'' @ dec k) =
              Some (dec (nat (r sh)) @ '' '' @ dec (nat (g sh)) @ '' '' @ dec (nat (b sh)))"
    if "(k, sh) \<in> set (palette (hexToRgb (JString s)))" for k sh
  proof -
    have bs: "byte_rgb sh" using palette_byte [OF hexToRgb_byte that] .
    then show ?thesis
      using applyTheme_lookup [OF that, of style] css_triple_byte [OF bs]
      by (simp add: byte_rgb_def)
  qed
  from 1 3 show ?thesis by (auto simp add: palette_keys)
qed

theorem applyTheme_palette_witness:
  "valid_hex ''#2563EB''
   \<and> regex_exec ''#2563EB'' \<noteq> None
   \<and> map fst (palette (hexToRgb (JString ''#2563EB''))) =
        [50, 100, 200, 300, 400, 500, 600, 700, 800, 900, 950]
   \<and> (950, \<lparr>r = 15, g = 40, b = 94\<rparr>) \<in> set (palette (hexToRgb (JString ''#2563EB'')))
   \<and> applyTheme (JString ''#2563EB'') Map.empty (''--brand-'' @ dec 950) =
        Some (dec (nat 15) @ '' '' @ dec (nat 40) @ '' '' @ dec (nat 94))"
proof -
  have h: "valid_hex ''#2563EB''"
    by (simp add: valid_hex_def hex6_def is_hex_def hex_table_def)
  show ?thesis
    using h palette_example(2) applyTheme_palette [OF h, of Map.empty] by fastforce
qed

text \<open>
  C2. For every input that is not a parseable hex colour (the empty string, any other
  string that is not six hex digits with an optional \<open>#\<close>, and every value that is not a
  string), \<open>hexToRgb\<close> returns the default blue \<open>{r: 37, g: 99, b: 235}\<close>, so the palette and
  the properties written are those of the default colour \<open>#2563EB\<close>. The function has no
  path that raises.
\<close>

theorem hexToRgb_fallback:
  assumes "\<not> parseable v"
  shows "hexToRgb v = \<lparr>r = 37, g = 99, b = 235\<rparr>
    \<and> palette (hexToRgb v) = palette (hexToRgb (JString ''#2563EB''))
    \<and> applyTheme v style = applyTheme (JString ''#2563EB'') style"
  using hexToRgb_unparseable [OF assms]
  by (simp add: hexToRgb_default applyTheme_def default_rgb_def)

theorem hexToRgb_fallback_witness:
  "\<not> parseable (JString []) \<and> hexToRgb (JString []) = \<lparr>r = 37, g = 99, b = 235\<rparr>
   \<and> \<not> parseable (JString ''#12345'') \<and> hexToRgb (JString ''#12345'') = \<lparr>r = 37, g = 99, b = 235\<rparr>
   \<and> \<not> parseable (JString ''#12345G'') \<and> hexToRgb (JString ''#12345G'') = \<lparr>r = 37, g = 99, b = 235\<rparr>
   \<and> \<not> parseable JUndefined \<and> hexToRgb JUndefined = \<lparr>r = 37, g = 99, b = 235\<rparr>
   \<and> \<not> parseable (JNumber 255) \<and> hexToRgb (JNumber 255) = \<lparr>r = 37, g = 99, b = 235\<rparr>
   \<and> applyTheme JNull Map.empty = applyTheme (JString ''#2563EB'') Map.empty"
proof -
  have 1: "\<not> parseable (JString [])" by (simp add: parseable_def valid_hex_def hex6_def)
  have 2: "\<not> parseable (JString ''#12345'')"
    by (simp add: parseable_def valid_hex_def hex6_def is_hex_def hex_table_def)
  have 3: "\<not> parseable (JString ''#12345G'')"
    by (simp add: parseable_def valid_hex_def hex6_def is_hex_def hex_table_def)
  have 4: "\<not> parseable JUndefined" by (simp add: parseable_def)
  have 5: "\<not> parseable (JNumber 255)" by (simp add: parseable_def)
  have 6: "\<not> parseable JNull" by (simp add: parseable_def)
  show ?thesis
    using 1 2 3 4 5 hexToRgb_fallback [OF 1] hexToRgb_fallback [OF 2] hexToRgb_fallback [OF 3]
      hexToRgb_fallback [OF 4] hexToRgb_fallback [OF 5] hexToRgb_fallback [OF 6, of Map.empty]
    by blast
qed

text \<open>
  C8. For the input \<open>#2563EB\<close>, shade 600 is the base colour \<open>{37, 99, 235}\<close> and shade 950 is
  \<open>{15, 40, 94}\<close>: the base blended 60% towards black in binary64 arithmetic, which is also
  what rounding the exact products \<open>0.4 * 37\<close>, \<open>0.4 * 99\<close> and \<open>0.4 * 235\<close> to the nearest
  integer gives. The properties \<open>--brand-600\<close> and \<open>--brand-950\<close> are set accordingly.
\<close>

theorem applyTheme_example:
  "hexToRgb (JString ''#2563EB'') = \<lparr>r = 37, g = 99, b = 235\<rparr>
   \<and> map_of (palette (hexToRgb (JString ''#2563EB''))) 600 = Some \<lparr>r = 37, g = 99, b = 235\<rparr>
   \<and> map_of (palette (hexToRgb (JString ''#2563EB''))) 950 = Some \<lparr>r = 15, g = 40, b = 94\<rparr>
   \<and> mix \<lparr>r = 37, g = 99, b = 235\<rparr> black (fl (6 / 10)) = \<lparr>r = 15, g = 40, b = 94\<rparr>
   \<and> Math_round (37 * (1 - 6 / 10)) = 15 \<and> Math_round (99 * (1 - 6 / 10)) = 40
   \<and> Math_round (235 * (1 - 6 / 10)) = 94
   \<and> applyTheme (JString ''#2563EB'') style ''--brand-600'' = Some ''37 99 235''
   \<and> applyTheme (JString ''#2563EB'') style ''--brand-950'' = Some ''15 40 94''"
proof -
  have 1: "hexToRgb (JString ''#2563EB'') = \<lparr>r = 37, g = 99, b = 235\<rparr>"
    by (simp add: hexToRgb_default default_rgb_def)
  have 2: "map_of (palette (hexToRgb (JString ''#2563EB''))) 600 = Some \<lparr>r = 37, g = 99, b = 235\<rparr>"
    by (simp add: 1 palette_def)
  have 4: "mix \<lparr>r = 37, g = 99, b = 235\<rparr> black (fl (6 / 10)) = \<lparr>r = 15, g = 40, b = 94\<rparr>"
    using mix_example by (simp add: mix_def black_def)
  have 3: "map_of (palette (hexToRgb (JString ''#2563EB''))) 950 = Some \<lparr>r = 15, g = 40, b = 94\<rparr>"
    using 4 by (simp add: 1 palette_def)
  have 5: "Math_round (37 * (1 - 6 / 10)) = 15" "Math_round (99 * (1 - 6 / 10)) = 40"
    "Math_round (235 * (1 - 6 / 10)) = 94"
    by code_simp+
  have 6: "applyTheme (JString ''#2563EB'') style ''--brand-600'' = Some ''37 99 235''"
    using applyTheme_lookup [OF palette_example(1), of style] by (simp add: dec_keys css_example)
  have 7: "applyTheme (JString ''#2563EB'') style ''--brand-950'' = Some ''15 40 94''"
    using applyTheme_lookup [OF palette_example(2), of style] by (simp add: dec_keys css_example)
  from 1 2 3 4 5 6 7 show ?thesis by blast
qed

theorem applyTheme_example_witness:
  "map_of (palette (hexToRgb (JString ''#2563EB''))) 600 = Some \<lparr>r = 37, g = 99, b = 235\<rparr>
   \<and> map_of (palette (hexToRgb (JString ''#2563EB''))) 950 = Some \<lparr>r = 15, g = 40, b = 94\<rparr>
   \<and> applyTheme (JString ''#2563EB'') Map.empty ''--brand-950'' = Some ''15 40 94''"
  using applyTheme_example [of Map.empty] by blast

text \<open>
  C9. \<open>hexToRgb\<close> accepts six hex digits with or without a leading \<open>#\<close> and reads the digits
  without regard to letter case: for every string \<open>s\<close> of six hex digits the match
  succeeds, the result is the three pairs of digits read in base 16, and \<open>'#' + s\<close>, the
  upper-case and the lower-case spelling of \<open>s\<close>, and every other six-digit string that
  differs from \<open>s\<close> in letter case only, give the same result.
\<close>

theorem hexToRgb_hash_and_case:
  assumes "hex6 s"
  shows "regex_exec s \<noteq> None
    \<and> hexToRgb (JString s) =
        \<lparr>r = 16 * hex_val (s ! 0) + hex_val (s ! 1), g = 16 * hex_val (s ! 2) + hex_val (s ! 3),
         b = 16 * hex_val (s ! 4) + hex_val (s ! 5)\<rparr>
    \<and> hexToRgb (JString (CHR ''#'' # s)) = hexToRgb (JString s)
    \<and> hexToRgb (JString (map to_upper s)) = hexToRgb (JString s)
    \<and> hexToRgb (JString (map to_lower s)) = hexToRgb (JString s)
    \<and> hexToRgb (JString (CHR ''#'' # map to_upper s)) = hexToRgb (JString s)
    \<and> hexToRgb (JString (CHR ''#'' # map to_lower s)) = hexToRgb (JString s)
    \<and> (\<forall>t. hex6 t \<and> map to_lower t = map to_lower s \<longrightarrow>
          hexToRgb (JString t) = hexToRgb (JString s)
          \<and> hexToRgb (JString (CHR ''#'' # t)) = hexToRgb (JString s))"
proof -
  from assms obtain c1 c2 c3 c4 c5 c6 where cs: "s = [c1, c2, c3, c4, c5, c6]"
    by (auto simp add: hex6_def elim: length6)
  have 1: "regex_exec s \<noteq> None"
    using regex_exec_hex6(1) [of c1 c2 c3 c4 c5 c6] assms by (simp add: cs)
  have 2: "hexToRgb (JString s) =
        \<lparr>r = 16 * hex_val (s ! 0) + hex_val (s ! 1), g = 16 * hex_val (s ! 2) + hex_val (s ! 3),
         b = 16 * hex_val (s ! 4) + hex_val (s ! 5)\<rparr>"
    using hexToRgb_hex6(1) [of c1 c2 c3 c4 c5 c6] assms by (simp add: cs)
  have up: "hex6 (map to_upper s) \<and> hexToRgb (JString (map to_upper s)) = hexToRgb (JString s)"
    by (rule hexToRgb_map [OF assms]) (simp add: to_upper_hex)
  have lo: "hex6 (map to_lower t) \<and> hexToRgb (JString (map to_lower t)) = hexToRgb (JString t)"
    if "hex6 t" for t
    by (rule hexToRgb_map [OF that]) (simp add: to_lower_hex)
  have 8: "hexToRgb (JString t) = hexToRgb (JString s)
      \<and> hexToRgb (JString (CHR ''#'' # t)) = hexToRgb (JString s)"
    if "hex6 t \<and> map to_lower t = map to_lower s" for t
    using that lo [of t] lo [OF assms] hexToRgb_hash [of t] by simp
  show ?thesis
    using 1 2 8 up lo [OF assms] hexToRgb_hash [OF assms]
      hexToRgb_hash [of "map to_upper s"] hexToRgb_hash [of "map to_lower s"]
    by simp
qed

theorem hexToRgb_hash_and_case_witness:
  "hex6 ''2563eB''
   \<and> hex6 ''2563Eb'' \<and> map to_lower ''2563Eb'' = map to_lower ''2563eB''
   \<and> hexToRgb (JString ''2563eB'') = \<lparr>r = 37, g = 99, b = 235\<rparr>
   \<and> hexToRgb (JString ''#2563eB'') = \<lparr>r = 37, g = 99, b = 235\<rparr>
   \<and> hexToRgb (JString ''2563EB'') = \<lparr>r = 37, g = 99, b = 235\<rparr>
   \<and> hexToRgb (JString ''2563eb'') = \<lparr>r = 37, g = 99, b = 235\<rparr>
   \<and> hexToRgb (JString ''2563Eb'') = \<lparr>r = 37, g = 99, b = 235\<rparr>
   \<and> hexToRgb (JString ''#2563Eb'') = \<lparr>r = 37, g = 99, b = 235\<rparr>"
proof -
  have h: "hex6 ''2563eB''" by (simp add: hex6_def is_hex_def hex_table_def)
  have k: "hex6 ''2563Eb'' \<and> map to_lower ''2563Eb'' = map to_lower ''2563eB''"
    by (simp add: hex6_def is_hex_def hex_table_def to_lower_def)
  have u: "map to_upper ''2563eB'' = ''2563EB''" by (simp add: to_upper_def)
  have l: "map to_lower ''2563eB'' = ''2563eb''" by (simp add: to_lower_def)
  have v: "\<lparr>r = 16 * hex_val (''2563eB'' ! 0) + hex_val (''2563eB'' ! 1),
      g = 16 * hex_val (''2563eB'' ! 2) + hex_val (''2563eB'' ! 3),
      b = 16 * hex_val (''2563eB'' ! 4) + hex_val (''2563eB'' ! 5)\<rparr> = \<lparr>r = 37, g = 99, b = 235\<rparr>"
    by (simp add: hex_val_def hex_table_def)
  show ?thesis
    using h k hexToRgb_hash_and_case [OF h] unfolding u l v by metis
qed

subsection \<open>View Controller\<close>

text \<open>
  C3. When \<open>checkIsAuthenticated()\<close> is false, \<open>renderContent\<close> run with the view
  AdminDashboard sets the view to AdminLogin and returns nothing, and so does \<open>App\<close> once
  the data is loaded; and in no state does a render, by \<open>renderContent\<close> or by \<open>App\<close>,
  hold the dashboard.
\<close>

theorem renderContent_dashboard_guard:
  assumes "\<not> checkIsAuthenticated svc a"
  shows "(view s = ADMIN_DASHBOARD \<longrightarrow>
            renderContent svc a s = (Inr NullNode, s\<lparr>view := ADMIN_LOGIN\<rparr>))
    \<and> (view s = ADMIN_DASHBOARD \<and> \<not> loading s \<and> config s \<noteq> None \<longrightarrow>
            App svc a s = (Inr NullNode, s\<lparr>view := ADMIN_LOGIN\<rparr>))
    \<and> (\<forall>n. fst (renderContent svc a s) = Inr n \<longrightarrow> \<not> has_dashboard n)
    \<and> (\<forall>n. fst (App svc a s) = Inr n \<longrightarrow> \<not> has_dashboard n)"
proof -
  have 1: "renderContent svc a s = (Inr NullNode, s\<lparr>view := ADMIN_LOGIN\<rparr>)"
    if "view s = ADMIN_DASHBOARD"
    using that assms by (simp add: renderContent_def)
  have 2: "App svc a s = (Inr NullNode, s\<lparr>view := ADMIN_LOGIN\<rparr>)"
    if "view s = ADMIN_DASHBOARD \<and> \<not> loading s \<and> config s \<noteq> None"
    using that 1 by (simp add: App_def)
  have 3: "\<not> has_dashboard n" if "fst (renderContent svc a s) = Inr n" for n
    using renderContent_no_dashboard [OF assms that] .
  have 4: "\<not> has_dashboard n" if n: "fst (App svc a s) = Inr n" for n
  proof (cases "loading s \<or> config s = None")
    case True
    with n show ?thesis by (auto simp add: App_def)
  next
    case False
    then obtain m where m: "fst (renderContent svc a s) = Inr m"
      and nm: "n = m \<or> n = Div [Navbar (view s) (config s) (pages s) (isDarkMode s), Div [m],
                 Footer (config s) (pages s), WhatsAppFloatingButton (config s)]"
      using App_loaded [of s svc a] n by auto
    from 3 [OF m] nm show ?thesis by auto
  qed
  from 1 2 3 4 show ?thesis by blast
qed

theorem renderContent_dashboard_guard_witness:
  "\<not> checkIsAuthenticated (spec_auth ''rahasia'') False
   \<and> view (demo_state\<lparr>view := ADMIN_DASHBOARD\<rparr>) = ADMIN_DASHBOARD
   \<and> \<not> loading (demo_state\<lparr>view := ADMIN_DASHBOARD\<rparr>)
   \<and> config (demo_state\<lparr>view := ADMIN_DASHBOARD\<rparr>) \<noteq> None
   \<and> renderContent (spec_auth ''rahasia'') False (demo_state\<lparr>view := ADMIN_DASHBOARD\<rparr>) =
       (Inr NullNode, demo_state\<lparr>view := ADMIN_LOGIN\<rparr>)
   \<and> App (spec_auth ''rahasia'') False (demo_state\<lparr>view := ADMIN_DASHBOARD\<rparr>) =
       (Inr NullNode, demo_state\<lparr>view := ADMIN_LOGIN\<rparr>)"
proof -
  have h: "\<not> checkIsAuthenticated (spec_auth ''rahasia'') False"
    by (simp add: spec_auth_def)
  show ?thesis
    using h renderContent_dashboard_guard [OF h, of "demo_state\<lparr>view := ADMIN_DASHBOARD\<rparr>"]
    by (simp add: demo_state_def initial_state_def)
qed

text \<open>
  C4. For every login submission where \<open>login(password)\<close> reports failure, the reply is
  \<open>{success: false}\<close> with the error message \<open>Login gagal\<close>, the handler stores that message,
  the view stays AdminLogin with the message shown in the login form, and nothing else
  changes: not the products, blogs, pages, config, selections or password input, nor the
  authentication state. The first part is about the handler with any \<open>login\<close> whose
  failed reply carries \<open>Login gagal\<close> or no message or an empty one; the second is about
  the Auth Gate of the spec, for which every failed reply is of that kind and the
  authentication state is as before.
\<close>

theorem handleLoginSubmit_failure:
  "(\<forall>res a'. login svc (loginPassword s) a = (res, a') \<and> \<not> success res
        \<and> (error res = None \<or> error res = Some [] \<or> error res = Some ''Login gagal'') \<longrightarrow>
      handleLoginSubmit svc (s, a) = (s\<lparr>loginError := ''Login gagal''\<rparr>, a')
      \<and> (view s = ADMIN_LOGIN \<longrightarrow>
           view (fst (handleLoginSubmit svc (s, a))) = ADMIN_LOGIN
           \<and> fst (renderContent svc a' (fst (handleLoginSubmit svc (s, a)))) =
               Inr (Div [SeoHead ''Admin Login'' ''Restricted Area'' None None (config s),
                         LoginForm (showPassword s) (loginPassword s) (Some ''Login gagal'')])))
   \<and> (\<not> success (fst (login (spec_auth secret) (loginPassword s) a)) \<longrightarrow>
        login (spec_auth secret) (loginPassword s) a =
          (\<lparr>success = False, error = Some ''Login gagal''\<rparr>, a)
        \<and> handleLoginSubmit (spec_auth secret) (s, a) = (s\<lparr>loginError := ''Login gagal''\<rparr>, a)
        \<and> checkIsAuthenticated (spec_auth secret) (snd (handleLoginSubmit (spec_auth secret) (s, a))) =
            checkIsAuthenticated (spec_auth secret) a)"
proof -
  have 1: "handleLoginSubmit svc (s, a) = (s\<lparr>loginError := ''Login gagal''\<rparr>, a')
      \<and> (view s = ADMIN_LOGIN \<longrightarrow>
           view (fst (handleLoginSubmit svc (s, a))) = ADMIN_LOGIN
           \<and> fst (renderContent svc a' (fst (handleLoginSubmit svc (s, a)))) =
               Inr (Div [SeoHead ''Admin Login'' ''Restricted Area'' None None (config s),
                         LoginForm (showPassword s) (loginPassword s) (Some ''Login gagal'')]))"
    if h: "login svc (loginPassword s) a = (res, a') \<and> \<not> success res
        \<and> (error res = None \<or> error res = Some [] \<or> error res = Some ''Login gagal'')"
    for res a'
  proof -
    from h have m: "or_else (error res) ''Login gagal'' = ''Login gagal''"
      by (auto simp add: or_else_def)
    from h have e: "handleLoginSubmit svc (s, a) = (s\<lparr>loginError := ''Login gagal''\<rparr>, a')"
      using handleLoginSubmit_failed [of svc s a res a'] by (simp add: m)
    show ?thesis unfolding e by (simp add: renderContent_def)
  qed
  have 2: "login (spec_auth secret) (loginPassword s) a =
          (\<lparr>success = False, error = Some ''Login gagal''\<rparr>, a)
        \<and> handleLoginSubmit (spec_auth secret) (s, a) = (s\<lparr>loginError := ''Login gagal''\<rparr>, a)
        \<and> checkIsAuthenticated (spec_auth secret) (snd (handleLoginSubmit (spec_auth secret) (s, a))) =
            checkIsAuthenticated (spec_auth secret) a"
    if h: "\<not> success (fst (login (spec_auth secret) (loginPassword s) a))"
  proof -
    from h have l: "login (spec_auth secret) (loginPassword s) a =
          (\<lparr>success = False, error = Some ''Login gagal''\<rparr>, a)"
      by (simp add: spec_auth_def split: if_splits)
    have e: "handleLoginSubmit (spec_auth secret) (s, a) = (s\<lparr>loginError := ''Login gagal''\<rparr>, a)"
      using handleLoginSubmit_failed [OF l] by (simp add: or_else_def)
    from l e show ?thesis by simp
  qed
  from 1 2 show ?thesis by blast
qed

theorem handleLoginSubmit_failure_witness:
  "login (spec_auth ''rahasia'') (loginPassword (demo_state\<lparr>view := ADMIN_LOGIN, loginPassword := ''tebak''\<rparr>)) True =
     (\<lparr>success = False, error = Some ''Login gagal''\<rparr>, True)
   \<and> \<not> success (fst (login (spec_auth ''rahasia'')
        (loginPassword (demo_state\<lparr>view := ADMIN_LOGIN, loginPassword := ''tebak''\<rparr>)) True))
   \<and> view (demo_state\<lparr>view := ADMIN_LOGIN, loginPassword := ''tebak''\<rparr>) = ADMIN_LOGIN
   \<and> handleLoginSubmit (spec_auth ''rahasia'')
       (demo_state\<lparr>view := ADMIN_LOGIN, loginPassword := ''tebak''\<rparr>, True) =
     (demo_state\<lparr>view := ADMIN_LOGIN, loginPassword := ''tebak'', loginError := ''Login gagal''\<rparr>, True)
   \<and> fst (renderContent (spec_auth ''rahasia'') True
        (fst (handleLoginSubmit (spec_auth ''rahasia'')
          (demo_state\<lparr>view := ADMIN_LOGIN, loginPassword := ''tebak''\<rparr>, True)))) =
       Inr (Div [SeoHead ''Admin Login'' ''Restricted Area'' None None (Some demo_config),
                 LoginForm False ''tebak'' (Some ''Login gagal'')])
   \<and> checkIsAuthenticated (spec_auth ''rahasia'')
        (snd (handleLoginSubmit (spec_auth ''rahasia'')
          (demo_state\<lparr>view := ADMIN_LOGIN, loginPassword := ''tebak''\<rparr>, True)))"
proof -
  let ?s = "demo_state\<lparr>view := ADMIN_LOGIN, loginPassword := ''tebak''\<rparr>"
  have h: "login (spec_auth ''rahasia'') (loginPassword ?s) True =
     (\<lparr>success = False, error = Some ''Login gagal''\<rparr>, True)"
    by (simp add: spec_auth_def)
  have k: "\<not> success (fst (login (spec_auth ''rahasia'') (loginPassword ?s) True))"
    by (simp add: spec_auth_def)
  have v: "view ?s = ADMIN_LOGIN" by simp
  have c: "checkIsAuthenticated (spec_auth ''rahasia'') True" by (simp add: spec_auth_def)
  have f: "config ?s = Some demo_config" "showPassword ?s = False" "loginPassword ?s = ''tebak''"
    by (simp_all add: demo_state_def initial_state_def)
  have r: "\<not> success \<lparr>success = False, error = Some ''Login gagal''\<rparr>
      \<and> error \<lparr>success = False, error = Some ''Login gagal''\<rparr> = Some ''Login gagal''"
    by simp
  note T = handleLoginSubmit_failure [of "spec_auth ''rahasia''" ?s True "''rahasia''"]
  from T [THEN conjunct1] h r v
  have u: "handleLoginSubmit (spec_auth ''rahasia'') (?s, True) = (?s\<lparr>loginError := ''Login gagal''\<rparr>, True)
      \<and> fst (renderContent (spec_auth ''rahasia'') True
          (fst (handleLoginSubmit (spec_auth ''rahasia'') (?s, True)))) =
        Inr (Div [SeoHead ''Admin Login'' ''Restricted Area'' None None (config ?s),
                  LoginForm (showPassword ?s) (loginPassword ?s) (Some ''Login gagal'')])"
    by blast
  from T [THEN conjunct2] k
  have t: "checkIsAuthenticated (spec_auth ''rahasia'')
        (snd (handleLoginSubmit (spec_auth ''rahasia'') (?s, True))) =
      checkIsAuthenticated (spec_auth ''rahasia'') True"
    by blast
  from t c have t': "checkIsAuthenticated (spec_auth ''rahasia'')
        (snd (handleLoginSubmit (spec_auth ''rahasia'') (?s, True)))"
    by (simp only:)
  from u [THEN conjunct2] have u': "fst (renderContent (spec_auth ''rahasia'') True
          (fst (handleLoginSubmit (spec_auth ''rahasia'') (?s, True)))) =
        Inr (Div [SeoHead ''Admin Login'' ''Restricted Area'' None None (Some demo_config),
                  LoginForm False ''tebak'' (Some ''Login gagal'')])"
    by (simp only: f)
  from h k v u u' t' show ?thesis by blast
qed

text \<open>
  C5. Rendering a detail view with no selection does not throw: for ProductDetail
  \<open>renderContent\<close> returns the Shop list, for BlogDetail an empty \<open>div\<close>, for DynamicPage
  nothing, the state is left as it was, and \<open>App\<close> never throws, whatever the state.
\<close>

theorem renderContent_no_selection:
  "(view s = PRODUCT_DETAIL \<and> selectedProduct s = None \<longrightarrow>
      renderContent svc a s = (Inr (Shop (products s)), s))
   \<and> (view s = BLOG_DETAIL \<and> selectedBlog s = None \<longrightarrow>
      renderContent svc a s = (Inr EmptyDiv, s))
   \<and> (view s = DYNAMIC_PAGE \<and> selectedPage s = None \<longrightarrow>
      renderContent svc a s = (Inr NullNode, s))
   \<and> (\<forall>e. fst (App svc a s) \<noteq> Inl e)"
proof -
  have 1: "renderContent svc a s = (Inr (Shop (products s)), s)"
    if "view s = PRODUCT_DETAIL \<and> selectedProduct s = None"
    using that by (simp add: renderContent_def)
  have 2: "renderContent svc a s = (Inr EmptyDiv, s)"
    if "view s = BLOG_DETAIL \<and> selectedBlog s = None"
    using that by (simp add: renderContent_def)
  have 3: "renderContent svc a s = (Inr NullNode, s)"
    if "view s = DYNAMIC_PAGE \<and> selectedPage s = None"
    using that by (simp add: renderContent_def)
  from 1 2 3 App_no_throw [of svc a s] show ?thesis by blast
qed

theorem renderContent_no_selection_witness:
  "view (demo_state\<lparr>view := PRODUCT_DETAIL\<rparr>) = PRODUCT_DETAIL
   \<and> selectedProduct (demo_state\<lparr>view := PRODUCT_DETAIL\<rparr>) = None
   \<and> renderContent (spec_auth ''rahasia'') False (demo_state\<lparr>view := PRODUCT_DETAIL\<rparr>) =
       (Inr (Shop []), demo_state\<lparr>view := PRODUCT_DETAIL\<rparr>)
   \<and> view (demo_state\<lparr>view := BLOG_DETAIL\<rparr>) = BLOG_DETAIL
   \<and> selectedBlog (demo_state\<lparr>view := BLOG_DETAIL\<rparr>) = None
   \<and> renderContent (spec_auth ''rahasia'') False (demo_state\<lparr>view := BLOG_DETAIL\<rparr>) =
       (Inr EmptyDiv, demo_state\<lparr>view := BLOG_DETAIL\<rparr>)
   \<and> view (demo_state\<lparr>view := DYNAMIC_PAGE\<rparr>) = DYNAMIC_PAGE
   \<and> selectedPage (demo_state\<lparr>view := DYNAMIC_PAGE\<rparr>) = None
   \<and> renderContent (spec_auth ''rahasia'') False (demo_state\<lparr>view := DYNAMIC_PAGE\<rparr>) =
       (Inr NullNode, demo_state\<lparr>view := DYNAMIC_PAGE\<rparr>)"
  using
    renderContent_no_selection [of "demo_state\<lparr>view := PRODUCT_DETAIL\<rparr>" "spec_auth ''rahasia''" False]
    renderContent_no_selection [of "demo_state\<lparr>view := BLOG_DETAIL\<rparr>" "spec_auth ''rahasia''" False]
    renderContent_no_selection [of "demo_state\<lparr>view := DYNAMIC_PAGE\<rparr>" "spec_auth ''rahasia''" False]
  by (simp add: demo_state_def initial_state_def)

text \<open>
  C6, as amended. After the write call of an admin handler (\<open>onSaveProduct\<close>,
  \<open>onDeleteProduct\<close>, \<open>onSaveBlog\<close>, \<open>onDeleteBlog\<close>, \<open>onSavePage\<close>, \<open>onDeletePage\<close>,
  \<open>onSaveConfig\<close>) has resolved, the handler calls all four reads, on the backend the
  write left. When all four resolve, the state holds exactly what they returned for the
  site config, the products, the blogs and the pages, with \<open>loading\<close> false and everything
  else as it was. When one of them rejects, the state is the one before the handler but
  for \<open>loading\<close>, which stays true: the collections are neither reloaded nor edited. When
  the write itself rejects, no read is called and the state is untouched. On no path is
  anything of the handler's argument merged into the state.
\<close>

theorem admin_action_reloads:
  "(\<forall>e. write_call st m (db w) = Inl e \<longrightarrow>
      admin_action st m (s, w) = (Rejected e, s, w\<lparr>calls := calls w @ [Write m]\<rparr>))
   \<and> (\<forall>d c p bl pg. write_call st m (db w) = Inr d
        \<and> getSiteConfig st d = Inr c \<and> getProducts st d = Inr p
        \<and> getBlogs st d = Inr bl \<and> getPages st d = Inr pg \<longrightarrow>
      admin_action st m (s, w) =
        (Resolved, s\<lparr>config := c, products := p, blogs := bl, pages := pg, loading := False\<rparr>,
         w\<lparr>db := d, calls := calls w @ [Write m, GetSiteConfig, GetProducts, GetBlogs, GetPages]\<rparr>))
   \<and> (\<forall>d e1 e2 e3 e4. write_call st m (db w) = Inr d
        \<and> (getSiteConfig st d = Inl e1 \<or> getProducts st d = Inl e2
           \<or> getBlogs st d = Inl e3 \<or> getPages st d = Inl e4) \<longrightarrow>
      (\<exists>e. admin_action st m (s, w) =
        (UnhandledRejection e, s\<lparr>loading := True\<rparr>,
         w\<lparr>db := d, calls := calls w @ [Write m, GetSiteConfig, GetProducts, GetBlogs, GetPages]\<rparr>)))"
proof -
  have 1: "admin_action st m (s, w) = (Rejected e, s, w\<lparr>calls := calls w @ [Write m]\<rparr>)"
    if "write_call st m (db w) = Inl e" for e
    unfolding admin_action_after_write
    using that after_write_rejected [of "write_call st m" w e st m s] by simp
  have 2: "admin_action st m (s, w) =
        (Resolved, s\<lparr>config := c, products := p, blogs := bl, pages := pg, loading := False\<rparr>,
         w\<lparr>db := d, calls := calls w @ [Write m, GetSiteConfig, GetProducts, GetBlogs, GetPages]\<rparr>)"
    if "write_call st m (db w) = Inr d
        \<and> getSiteConfig st d = Inr c \<and> getProducts st d = Inr p
        \<and> getBlogs st d = Inr bl \<and> getPages st d = Inr pg" for d c p bl pg
    unfolding admin_action_after_write using that by (simp add: after_write_ok)
  have 3: "\<exists>e. admin_action st m (s, w) =
        (UnhandledRejection e, s\<lparr>loading := True\<rparr>,
         w\<lparr>db := d, calls := calls w @ [Write m, GetSiteConfig, GetProducts, GetBlogs, GetPages]\<rparr>)"
    if "write_call st m (db w) = Inr d
        \<and> (getSiteConfig st d = Inl e1 \<or> getProducts st d = Inl e2
           \<or> getBlogs st d = Inl e3 \<or> getPages st d = Inl e4)" for d e1 e2 e3 e4
    unfolding admin_action_after_write
    using that after_write_read_rejected [of "write_call st m" w d st e1 e2 e3 e4 m s] by blast
  from 1 2 3 show ?thesis by blast
qed

theorem admin_action_reloads_witness:
  "write_call memory_store (DeleteProduct ''p1'') (db \<lparr>db = demo_backend, calls = []\<rparr>) =
     Inr (demo_backend\<lparr>stored_products := [demo_product ''p2'']\<rparr>)
   \<and> getSiteConfig memory_store (demo_backend\<lparr>stored_products := [demo_product ''p2'']\<rparr>) =
       Inr (Some demo_config)
   \<and> getProducts memory_store (demo_backend\<lparr>stored_products := [demo_product ''p2'']\<rparr>) =
       Inr [demo_product ''p2'']
   \<and> getBlogs memory_store (demo_backend\<lparr>stored_products := [demo_product ''p2'']\<rparr>) = Inr []
   \<and> getPages memory_store (demo_backend\<lparr>stored_products := [demo_product ''p2'']\<rparr>) = Inr []
   \<and> admin_action memory_store (DeleteProduct ''p1'')
       (demo_state\<lparr>view := ADMIN_DASHBOARD, products := [demo_product ''p1'', demo_product ''p2'']\<rparr>,
        \<lparr>db = demo_backend, calls = []\<rparr>) =
     (Resolved,
      demo_state\<lparr>view := ADMIN_DASHBOARD, products := [demo_product ''p2'']\<rparr>,
      \<lparr>db = demo_backend\<lparr>stored_products := [demo_product ''p2'']\<rparr>,
       calls = [Write (DeleteProduct ''p1''), GetSiteConfig, GetProducts, GetBlogs, GetPages]\<rparr>)
   \<and> write_call write_failing_store (DeleteProduct ''p1'') (db \<lparr>db = demo_backend, calls = []\<rparr>) =
       Inl (Rejection ''denied'')
   \<and> admin_action write_failing_store (DeleteProduct ''p1'')
       (demo_state\<lparr>view := ADMIN_DASHBOARD, products := [demo_product ''p1'', demo_product ''p2'']\<rparr>,
        \<lparr>db = demo_backend, calls = []\<rparr>) =
     (Rejected (Rejection ''denied''),
      demo_state\<lparr>view := ADMIN_DASHBOARD, products := [demo_product ''p1'', demo_product ''p2'']\<rparr>,
      \<lparr>db = demo_backend, calls = [Write (DeleteProduct ''p1'')]\<rparr>)
   \<and> write_call read_failing_store (DeleteProduct ''p1'') (db \<lparr>db = demo_backend, calls = []\<rparr>) =
       Inr (demo_backend\<lparr>stored_products := [demo_product ''p2'']\<rparr>)
   \<and> getProducts read_failing_store (demo_backend\<lparr>stored_products := [demo_product ''p2'']\<rparr>) =
       Inl (Rejection ''offline'')
   \<and> (\<exists>e. admin_action read_failing_store (DeleteProduct ''p1'')
       (demo_state\<lparr>view := ADMIN_DASHBOARD, products := [demo_product ''p1'', demo_product ''p2'']\<rparr>,
        \<lparr>db = demo_backend, calls = []\<rparr>) =
     (UnhandledRejection e,
      demo_state\<lparr>view := ADMIN_DASHBOARD, products := [demo_product ''p1'', demo_product ''p2''],
        loading := True\<rparr>,
      \<lparr>db = demo_backend\<lparr>stored_products := [demo_product ''p2'']\<rparr>,
       calls = [Write (DeleteProduct ''p1''), GetSiteConfig, GetProducts, GetBlogs, GetPages]\<rparr>))"
proof -
  let ?d = "demo_backend\<lparr>stored_products := [demo_product ''p2'']\<rparr>"
  let ?w = "\<lparr>db = demo_backend, calls = []\<rparr>"
  let ?s = "demo_state\<lparr>view := ADMIN_DASHBOARD, products := [demo_product ''p1'', demo_product ''p2'']\<rparr>"
  have 1: "write_call memory_store (DeleteProduct ''p1'') (db ?w) = Inr ?d"
    by (simp add: memory_store_def demo_backend_def demo_product_def)
  have 2: "getSiteConfig memory_store ?d = Inr (Some demo_config)"
    by (simp add: memory_store_def demo_backend_def)
  have 3: "getProducts memory_store ?d = Inr [demo_product ''p2'']"
    by (simp add: memory_store_def)
  have 4: "getBlogs memory_store ?d = Inr []"
    by (simp add: memory_store_def demo_backend_def)
  have 5: "getPages memory_store ?d = Inr []"
    by (simp add: memory_store_def demo_backend_def)
  have 6: "write_call write_failing_store (DeleteProduct ''p1'') (db ?w) = Inl (Rejection ''denied'')"
    by (simp add: write_failing_store_def memory_store_def)
  have 7: "write_call read_failing_store (DeleteProduct ''p1'') (db ?w) = Inr ?d"
    by (simp add: read_failing_store_def memory_store_def demo_backend_def demo_product_def)
  have 8: "getProducts read_failing_store ?d = Inl (Rejection ''offline'')"
    by (simp add: read_failing_store_def memory_store_def)
  have a: "admin_action memory_store (DeleteProduct ''p1'') (?s, ?w) =
      (Resolved, demo_state\<lparr>view := ADMIN_DASHBOARD, products := [demo_product ''p2'']\<rparr>,
       \<lparr>db = ?d, calls = [Write (DeleteProduct ''p1''), GetSiteConfig, GetProducts, GetBlogs, GetPages]\<rparr>)"
    using 1 2 3 4 5 admin_action_reloads [of memory_store "DeleteProduct ''p1''" ?w ?s]
    by (simp add: demo_state_def initial_state_def)
  have b: "admin_action write_failing_store (DeleteProduct ''p1'') (?s, ?w) =
      (Rejected (Rejection ''denied''), ?s, \<lparr>db = demo_backend, calls = [Write (DeleteProduct ''p1'')]\<rparr>)"
    using 6 admin_action_reloads [of write_failing_store "DeleteProduct ''p1''" ?w ?s] by simp
  have c: "\<exists>e. admin_action read_failing_store (DeleteProduct ''p1'') (?s, ?w) =
      (UnhandledRejection e,
       demo_state\<lparr>view := ADMIN_DASHBOARD, products := [demo_product ''p1'', demo_product ''p2''],
         loading := True\<rparr>,
       \<lparr>db = ?d, calls = [Write (DeleteProduct ''p1''), GetSiteConfig, GetProducts, GetBlogs, GetPages]\<rparr>)"
  proof -
    have "\<exists>e. admin_action read_failing_store (DeleteProduct ''p1'') (?s, ?w) =
        (UnhandledRejection e, ?s\<lparr>loading := True\<rparr>,
         ?w\<lparr>db := ?d, calls := calls ?w @ [Write (DeleteProduct ''p1''), GetSiteConfig, GetProducts, GetBlogs, GetPages]\<rparr>)"
      using 7 8 admin_action_reloads [of read_failing_store "DeleteProduct ''p1''" ?w ?s] by blast
    then show ?thesis by simp
  qed
  from 1 2 3 4 5 6 7 8 a b c show ?thesis by blast
qed

theorem admin_action_reloads_counterexample:
  "write_call read_failing_store (DeleteProduct ''p1'') demo_backend =
     Inr (demo_backend\<lparr>stored_products := [demo_product ''p2'']\<rparr>)
   \<and> admin_action read_failing_store (DeleteProduct ''p1'')
       (demo_state\<lparr>view := ADMIN_DASHBOARD, products := [demo_product ''p1'', demo_product ''p2'']\<rparr>,
        \<lparr>db = demo_backend, calls = []\<rparr>) =
     (UnhandledRejection (Rejection ''offline''),
      demo_state\<lparr>view := ADMIN_DASHBOARD, products := [demo_product ''p1'', demo_product ''p2''],
        loading := True\<rparr>,
      \<lparr>db = demo_backend\<lparr>stored_products := [demo_product ''p2'']\<rparr>,
       calls = [Write (DeleteProduct ''p1''), GetSiteConfig, GetProducts, GetBlogs, GetPages]\<rparr>)
   \<and> products (fst (snd (admin_action read_failing_store (DeleteProduct ''p1'')
       (demo_state\<lparr>view := ADMIN_DASHBOARD, products := [demo_product ''p1'', demo_product ''p2'']\<rparr>,
        \<lparr>db = demo_backend, calls = []\<rparr>)))) \<noteq>
      stored_products (demo_backend\<lparr>stored_products := [demo_product ''p2'']\<rparr>)
   \<and> loading (fst (snd (admin_action read_failing_store (DeleteProduct ''p1'')
       (demo_state\<lparr>view := ADMIN_DASHBOARD, products := [demo_product ''p1'', demo_product ''p2'']\<rparr>,
        \<lparr>db = demo_backend, calls = []\<rparr>))))"
  by (simp add: read_failing_store_def memory_store_def demo_backend_def demo_product_def
      onDeleteProduct_def after_write_def fetchData_def Let_def demo_state_def initial_state_def)

text \<open>
  C7. While \<open>loading\<close> is true or the config is \<open>null\<close>, as in the initial state and in
  the state a reload leaves when one of its four reads rejects, \<open>App\<close> renders the loading
  indicator and nothing else. So whenever \<open>App\<close> renders anything other than the loading
  indicator the config is not \<open>null\<close>, every component in the render is handed exactly that
  config, and the render does not throw.
\<close>

theorem App_loading_guard:
  "(loading s \<or> config s = None \<longrightarrow> App svc a s = (Inr LoadingIndicator, s))
   \<and> App svc a initial_state = (Inr LoadingIndicator, initial_state)
   \<and> (\<forall>n. fst (App svc a s) = Inr n \<and> n \<noteq> LoadingIndicator \<longrightarrow>
        config s \<noteq> None \<and> (\<forall>c \<in> set (config_props n). c = config s \<and> c \<noteq> None))
   \<and> (\<forall>e. fst (App svc a s) \<noteq> Inl e)
   \<and> (\<forall>e s' w'. fetchData st (s, w) = (Inl e, s', w') \<longrightarrow>
        App svc a s' = (Inr LoadingIndicator, s'))"
proof -
  have 1: "App svc a s = (Inr LoadingIndicator, s)" if "loading s \<or> config s = None"
    using that by (simp add: App_def)
  have 2: "App svc a initial_state = (Inr LoadingIndicator, initial_state)"
    by (simp add: App_def initial_state_def)
  have 3: "config s \<noteq> None \<and> (\<forall>c \<in> set (config_props n). c = config s \<and> c \<noteq> None)"
    if "fst (App svc a s) = Inr n \<and> n \<noteq> LoadingIndicator" for n
    using App_config_props [of svc a s n] that by auto
  have 5: "App svc a s' = (Inr LoadingIndicator, s')"
    if "fetchData st (s, w) = (Inl e, s', w')" for e s' w'
    using fetchData_rejected [OF that] by (simp add: App_def)
  from 1 2 3 5 App_no_throw [of svc a s] show ?thesis by blast
qed

theorem App_loading_guard_witness:
  "loading initial_state
   \<and> App (spec_auth ''rahasia'') False initial_state = (Inr LoadingIndicator, initial_state)
   \<and> fst (App (spec_auth ''rahasia'') False demo_state) =
       Inr (Div [Navbar HOME (Some demo_config) [] False,
                 Div [Fragment [SeoHead ''Home'' ''Audio Mobil'' None None (Some demo_config),
                                Home [] [] (Some demo_config)]],
                 Footer (Some demo_config) [],
                 WhatsAppFloatingButton (Some demo_config)])
   \<and> config demo_state \<noteq> None
   \<and> Some demo_config \<in> set (config_props
         (Div [Navbar HOME (Some demo_config) [] False,
               Div [Fragment [SeoHead ''Home'' ''Audio Mobil'' None None (Some demo_config),
                              Home [] [] (Some demo_config)]],
               Footer (Some demo_config) [],
               WhatsAppFloatingButton (Some demo_config)]))
   \<and> Some demo_config = config demo_state"
proof -
  let ?n = "Div [Navbar HOME (Some demo_config) [] False,
                 Div [Fragment [SeoHead ''Home'' ''Audio Mobil'' None None (Some demo_config),
                                Home [] [] (Some demo_config)]],
                 Footer (Some demo_config) [],
                 WhatsAppFloatingButton (Some demo_config)]"
  have h: "loading initial_state" by (simp add: initial_state_def)
  have k: "fst (App (spec_auth ''rahasia'') False demo_state) = Inr ?n"
    by (simp add: App_def renderContent_def demo_state_def initial_state_def demo_config_def)
  have l: "?n \<noteq> LoadingIndicator" by simp
  have m: "Some demo_config \<in> set (config_props ?n)" by simp
  show ?thesis
    using h k l m
      App_loading_guard [of initial_state "spec_auth ''rahasia''" False memory_store
        "\<lparr>db = demo_backend, calls = []\<rparr>"]
      App_loading_guard [of demo_state "spec_auth ''rahasia''" False memory_store
        "\<lparr>db = demo_backend, calls = []\<rparr>"]
    by blast
qed

text \<open>
  C10. For every login submission where \<open>login(password)\<close> reports success, the handler
  clears the stored password input and the login error message and sets the view to
  AdminDashboard, leaving the rest of the state of \<open>App\<close> as it was and the authentication
  store as \<open>login\<close> left it.
\<close>

theorem handleLoginSubmit_success:
  assumes "login svc (loginPassword s) a = (res, a')" and "success res"
  shows "handleLoginSubmit svc (s, a) =
    (s\<lparr>loginPassword := [], loginError := [], view := ADMIN_DASHBOARD\<rparr>, a')"
  using assms by (simp add: handleLoginSubmit_def)

theorem handleLoginSubmit_success_witness:
  "login (spec_auth ''rahasia'')
      (loginPassword (demo_state\<lparr>view := ADMIN_LOGIN, loginPassword := ''rahasia'', loginError := ''Login gagal''\<rparr>))
      False = (\<lparr>success = True, error = None\<rparr>, True)
   \<and> success \<lparr>success = True, error = None\<rparr>
   \<and> handleLoginSubmit (spec_auth ''rahasia'')
       (demo_state\<lparr>view := ADMIN_LOGIN, loginPassword := ''rahasia'', loginError := ''Login gagal''\<rparr>, False) =
     (demo_state\<lparr>view := ADMIN_DASHBOARD\<rparr>, True)"
proof -
  have h: "login (spec_auth ''rahasia'')
      (loginPassword (demo_state\<lparr>view := ADMIN_LOGIN, loginPassword := ''rahasia'', loginError := ''Login gagal''\<rparr>))
      False = (\<lparr>success = True, error = None\<rparr>, True)"
    by (simp add: spec_auth_def)
  have k: "success \<lparr>success = True, error = None\<rparr>" by simp
  show ?thesis
    using h k handleLoginSubmit_success [OF h k] by (simp add: demo_state_def initial_state_def)
qed

end
